theory Spec2Isabelle
  imports Main
begin

section \<open>Python strings and integers\<close>

text \<open>
  The bot is Python 2 code: a \<open>str\<close> is a byte string, modelled as \<^typ>\<open>string\<close>;
  an \<open>int\<close>/\<open>long\<close> is unbounded, modelled as \<^typ>\<open>int\<close>.
\<close>

definition newline :: char where
  "newline = CHR 0x0A"

definition whitespace :: "char list" where
  "whitespace = [CHR '' '', CHR 0x09, CHR 0x0A, CHR 0x0D, CHR 0x0B, CHR 0x0C]"

text \<open>\<open>s.strip()\<close>: removes the whitespace at both ends.\<close>

definition strip :: "string \<Rightarrow> string" where
  "strip s = rev (dropWhile (\<lambda>c. c \<in> set whitespace)
                 (rev (dropWhile (\<lambda>c. c \<in> set whitespace) s)))"

text \<open>\<open>s.split(":")\<close>: the fields between the separators; never an empty list.\<close>

fun split_on :: "char \<Rightarrow> string \<Rightarrow> string list" where
  "split_on sep [] = [[]]"
| "split_on sep (c # cs) =
     (if c = sep then [] # split_on sep cs
      else (case split_on sep cs of
              [] \<Rightarrow> [[c]]
            | f # fs \<Rightarrow> (c # f) # fs))"

text \<open>\<open>s.lower()\<close>: the ASCII capitals become small letters.\<close>

definition lower_char :: "char \<Rightarrow> char" where
  "lower_char c =
     (case map_of (zip ''ABCDEFGHIJKLMNOPQRSTUVWXYZ'' ''abcdefghijklmnopqrstuvwxyz'') c of
        None \<Rightarrow> c
      | Some d \<Rightarrow> d)"

definition lower :: "string \<Rightarrow> string" where
  "lower s = map lower_char s"

text \<open>\<open>p in s\<close> on strings: \<open>p\<close> occurs in \<open>s\<close> as a contiguous substring.\<close>

fun contains :: "string \<Rightarrow> string \<Rightarrow> bool" where
  "contains [] p = (p = [])"
| "contains (c # cs) p = (take (length p) (c # cs) = p \<or> contains cs p)"

text \<open>\<open>str(n)\<close> and \<open>"%s" % n\<close>, \<open>"%d" % n\<close> for an integer: its decimal numeral.\<close>

definition digit_char :: "nat \<Rightarrow> char" where
  "digit_char d = ''0123456789'' ! d"

fun str_nat :: "nat \<Rightarrow> string" where
  "str_nat n = (if n < 10 then [digit_char n] else str_nat (n div 10) @ [digit_char (n mod 10)])"

declare str_nat.simps [simp del]

definition str_int :: "int \<Rightarrow> string" where
  "str_int i = (if i < 0 then CHR ''-'' # str_nat (nat (- i)) else str_nat (nat i))"

text \<open>
  \<open>int(s)\<close> on a byte string (base 10): optional whitespace, an optional sign, one or more
  decimal digits, optional whitespace; anything else raises \<open>ValueError\<close> (\<open>None\<close> here).
\<close>

definition digit_val :: "char \<Rightarrow> nat option" where
  "digit_val c = map_of (zip ''0123456789'' [0, 1, 2, 3, 4, 5, 6, 7, 8, 9]) c"

fun digits_val :: "nat \<Rightarrow> string \<Rightarrow> nat option" where
  "digits_val acc [] = Some acc"
| "digits_val acc (c # cs) =
     (case digit_val c of
        None \<Rightarrow> None
      | Some d \<Rightarrow> digits_val (10 * acc + d) cs)"

definition parse_nat :: "string \<Rightarrow> nat option" where
  "parse_nat s = (if s = [] then None else digits_val 0 s)"

definition py_int :: "string \<Rightarrow> int option" where
  "py_int s =
     (case strip s of
        [] \<Rightarrow> None
      | c # cs \<Rightarrow>
          if c = CHR ''-'' then map_option (\<lambda>n. - int n) (parse_nat cs)
          else if c = CHR ''+'' then map_option int (parse_nat cs)
          else map_option int (parse_nat (c # cs)))"

text \<open>
  Iterating over an open file yields its lines, each with its terminating newline; a last
  line without a newline is yielded as it is, and an empty file yields nothing.
\<close>

fun file_lines :: "string \<Rightarrow> string list" where
  "file_lines [] = []"
| "file_lines (c # cs) =
     (if c = newline then [c] # file_lines cs
      else (case file_lines cs of
              [] \<Rightarrow> [[c]]
            | l # ls \<Rightarrow> (c # l) # ls))"

section \<open>Python sets of identifiers\<close>

text \<open>
  A \<open>set\<close> of integers is modelled by the list of its elements in the order in which a
  \<open>for\<close> loop visits them. That order is the hash table's and is not fixed by the language,
  so it is a parameter: \<open>order xs\<close> is the iteration order of a set into which the
  elements \<open>xs\<close> were inserted in this sequence. The only facts used about it are those
  of \<open>set_order_ok\<close>.
\<close>

type_synonym pyset = "int list"
type_synonym set_order = "int list \<Rightarrow> int list"

definition set_order_ok :: "set_order \<Rightarrow> bool" where
  "set_order_ok order \<longleftrightarrow> (\<forall>xs. distinct (order xs) \<and> set (order xs) = set xs)"

text \<open>\<open>set(xs)\<close>\<close>

definition py_set :: "set_order \<Rightarrow> int list \<Rightarrow> pyset" where
  "py_set order xs = order xs"

text \<open>\<open>a - b\<close>\<close>

definition py_difference :: "set_order \<Rightarrow> pyset \<Rightarrow> pyset \<Rightarrow> pyset" where
  "py_difference order a b = order (filter (\<lambda>x. x \<notin> set b) a)"

text \<open>\<open>a.update(b)\<close>\<close>

definition py_update :: "set_order \<Rightarrow> pyset \<Rightarrow> pyset \<Rightarrow> pyset" where
  "py_update order a b = order (a @ b)"

text \<open>One order that satisfies \<open>set_order_ok\<close>: first insertion first.\<close>

definition insertion_order :: set_order where
  "insertion_order xs = rev (remdups (rev xs))"

section \<open>Exceptions, the file system and the remote API\<close>

text \<open>
  The \<open>twitter\<close> library raises \<open>TwitterHTTPError\<close> for an error answer of the API; any
  other failure of a call (the transport's) is a different exception class. Both carry
  the text that \<open>str(e)\<close> gives. The other exceptions are those that the bot's own
  statements raise.
\<close>

datatype remote_error = TwitterHTTPError string | OtherRemoteError string

datatype exn =
    Remote remote_error
  | IOError string
  | ValueError string
  | KeyError string
  | IndexError
  | AttributeError
  | TypeError
  | SystemExit

text \<open>\<open>str(e)\<close> for an exception that a remote call raised.\<close>

fun str_remote :: "remote_error \<Rightarrow> string" where
  "str_remote (TwitterHTTPError m) = m"
| "str_remote (OtherRemoteError m) = m"

text \<open>
  \<open>str(e)\<close> for the \<open>AttributeError\<close> of \<open>None.friendships\<close>:
  \<open>'NoneType' object has no attribute 'friendships'\<close>.
\<close>

definition no_friendships :: string where
  "no_friendships =
     [CHR 0x27] @ ''NoneType'' @ [CHR 0x27] @ '' object has no attribute ''
       @ [CHR 0x27] @ ''friendships'' @ [CHR 0x27]"

type_synonym path = string
type_synonym file_system = "path \<rightharpoonup> string"

record tweet =
  tweet_id :: int
  tweet_text :: string
  tweet_user_id :: int
  tweet_user_screen_name :: string

record ids_page =
  ids :: "int list"
  next_cursor :: int

text \<open>The calls the bot makes on the connection, with their arguments.\<close>

datatype call =
    FollowersIds string "int option"
  | FriendsIds string "int option"
  | SearchTweets string string int
  | FavoritesCreate int
  | StatusesRetweet int
  | FriendshipsCreate int
  | FriendshipsDestroy int
  | MutesUsersIds string
  | MutesUsersCreate int
  | MutesUsersDestroy int

text \<open>
  The remote API is a collaborator: each endpoint answers from the calls made so far and
  the arguments of this one, with a value or a remote error.
\<close>

record remote =
  followers_ids :: "call list \<Rightarrow> string \<Rightarrow> int option \<Rightarrow> remote_error + ids_page"
  friends_ids :: "call list \<Rightarrow> string \<Rightarrow> int option \<Rightarrow> remote_error + ids_page"
  search_tweets_api :: "call list \<Rightarrow> string \<Rightarrow> string \<Rightarrow> int \<Rightarrow> remote_error + tweet list"
  favorites_create :: "call list \<Rightarrow> int \<Rightarrow> remote_error + string"
  statuses_retweet :: "call list \<Rightarrow> int \<Rightarrow> remote_error + string"
  friendships_create :: "call list \<Rightarrow> int \<Rightarrow> remote_error + unit"
  friendships_destroy :: "call list \<Rightarrow> int \<Rightarrow> remote_error + unit"
  mutes_users_ids :: "call list \<Rightarrow> string \<Rightarrow> remote_error + int list"
  mutes_users_create :: "call list \<Rightarrow> int \<Rightarrow> remote_error + unit"
  mutes_users_destroy :: "call list \<Rightarrow> int \<Rightarrow> remote_error + unit"

text \<open>
  The world outside the bot object: the files, the calls issued so far (each with the files
  as they were when the call was issued) and what was printed.
\<close>

record world =
  files :: file_system
  trace :: "(call \<times> file_system) list"
  stdout :: "string list"

record bot =
  BOT_CONFIG :: "string \<rightharpoonup> string"
  TWITTER_CONNECTION :: "(string \<times> string \<times> string \<times> string) option"

text \<open>What the Python runtime and the operating system decide.\<close>

record runtime =
  order :: set_order
  file_age :: "path \<Rightarrow> int"

definition print :: "string \<Rightarrow> world \<Rightarrow> world" where
  "print s w = w\<lparr>stdout := stdout w @ [s]\<rparr>"

definition history :: "world \<Rightarrow> call list" where
  "history w = map fst (trace w)"

definition issue :: "call \<Rightarrow> world \<Rightarrow> world" where
  "issue c w = w\<lparr>trace := trace w @ [(c, files w)]\<rparr>"

text \<open>\<open>self.BOT_CONFIG[k]\<close>\<close>

definition config :: "bot \<Rightarrow> string \<Rightarrow> exn + string" where
  "config st k = (case BOT_CONFIG st k of None \<Rightarrow> Inl (KeyError k) | Some v \<Rightarrow> Inr v)"

text \<open>An attribute of \<open>self.TWITTER_CONNECTION\<close>: fails on \<open>None\<close>.\<close>

definition connected :: "bot \<Rightarrow> bool" where
  "connected st \<longleftrightarrow> TWITTER_CONNECTION st \<noteq> None"

definition not_set_up :: string where
  "not_set_up = ''The bot has not been set up yet. Please run bot_setup() first.''"

text \<open>
  Writing identifiers to an open file, one \<open>"%s\\n" % id\<close> per element, in the iteration
  order of the set.
\<close>

definition id_lines :: "pyset \<Rightarrow> string" where
  "id_lines s = concat (map (\<lambda>i. str_int i @ [newline]) s)"

text \<open>\<open>open(p, "wb")\<close> and the writes: the file is created or truncated.\<close>

definition write_file :: "path \<Rightarrow> string \<Rightarrow> world \<Rightarrow> world" where
  "write_file p data w = w\<lparr>files := (files w)(p \<mapsto> data)\<rparr>"

text \<open>\<open>open(p, "ab")\<close> and the writes: the file is created if missing.\<close>

definition append_file :: "path \<Rightarrow> string \<Rightarrow> world \<Rightarrow> world" where
  "append_file p data w =
     w\<lparr>files := (files w)(p \<mapsto> (case files w p of None \<Rightarrow> [] | Some old \<Rightarrow> old) @ data)\<rparr>"

text \<open>
  The reading loop of the three loaders and of \<open>auto_unfollow_nonfollowers\<close>:
  \<open>for line in in_file: xs.append(int(line))\<close>.
\<close>

fun int_lines :: "string list \<Rightarrow> exn + int list" where
  "int_lines [] = Inr []"
| "int_lines (l # ls) =
     (case py_int l of
        None \<Rightarrow> Inl (ValueError l)
      | Some i \<Rightarrow> (case int_lines ls of Inl e \<Rightarrow> Inl e | Inr is \<Rightarrow> Inr (i # is)))"

definition read_ids :: "world \<Rightarrow> path \<Rightarrow> exn + int list" where
  "read_ids w p =
     (case files w p of
        None \<Rightarrow> Inl (IOError p)
      | Some content \<Rightarrow> int_lines (file_lines content))"

section \<open>The snapshot loaders\<close>

text \<open>
  Each operation returns the raised exception or the returned value (\<open>None\<close> is Python's
  \<open>None\<close>), and the world after it. A loader returns \<open>None\<close> only for an empty
  configuration; the operations below call the loaders after they have excluded that case,
  so their \<open>TypeError\<close> branches (what Python raises on \<open>None\<close>) are never taken.
\<close>

definition load_snapshot :: "runtime \<Rightarrow> bot \<Rightarrow> string \<Rightarrow> world \<Rightarrow> (exn + pyset option) \<times> world" where
  "load_snapshot rt st key w =
     (if BOT_CONFIG st = Map.empty then (Inr None, print not_set_up w)
      else (case config st key of
              Inl e \<Rightarrow> (Inl e, w)
            | Inr p \<Rightarrow>
                (case read_ids w p of
                   Inl e \<Rightarrow> (Inl e, w)
                 | Inr xs \<Rightarrow> (Inr (Some (py_set (order rt) xs)), w))))"

definition get_do_not_follow_list :: "runtime \<Rightarrow> bot \<Rightarrow> world \<Rightarrow> (exn + pyset option) \<times> world" where
  "get_do_not_follow_list rt st w = load_snapshot rt st ''ALREADY_FOLLOWED_FILE'' w"

definition get_followers_list :: "runtime \<Rightarrow> bot \<Rightarrow> world \<Rightarrow> (exn + pyset option) \<times> world" where
  "get_followers_list rt st w = load_snapshot rt st ''FOLLOWERS_FILE'' w"

definition get_follows_list :: "runtime \<Rightarrow> bot \<Rightarrow> world \<Rightarrow> (exn + pyset option) \<times> world" where
  "get_follows_list rt st w = load_snapshot rt st ''FOLLOWS_FILE'' w"

section \<open>Synchronising the snapshots\<close>

datatype resource = Followers | Friends

fun listing :: "remote \<Rightarrow> resource \<Rightarrow> call list \<Rightarrow> string \<Rightarrow> int option \<Rightarrow> remote_error + ids_page" where
  "listing R Followers = followers_ids R"
| "listing R Friends = friends_ids R"

fun listing_call :: "resource \<Rightarrow> string \<Rightarrow> int option \<Rightarrow> call" where
  "listing_call Followers = FollowersIds"
| "listing_call Friends = FriendsIds"

fun snapshot_key :: "resource \<Rightarrow> string" where
  "snapshot_key Followers = ''FOLLOWERS_FILE''"
| "snapshot_key Friends = ''FOLLOWS_FILE''"

text \<open>
  \<open>self.TWITTER_CONNECTION.followers.ids(screen_name=self.BOT_CONFIG["TWITTER_HANDLE"], cursor=c)\<close>
  (and the same for \<open>friends\<close>); \<open>None\<close> is the call without a cursor.
\<close>

definition list_ids :: "remote \<Rightarrow> bot \<Rightarrow> resource \<Rightarrow> int option \<Rightarrow> world \<Rightarrow> (exn + ids_page) \<times> world" where
  "list_ids R st res cursor w =
     (if \<not> connected st then (Inl AttributeError, w)
      else (case config st ''TWITTER_HANDLE'' of
              Inl e \<Rightarrow> (Inl e, w)
            | Inr handle \<Rightarrow>
                (case listing R res (history w) handle cursor of
                   Inl e \<Rightarrow> (Inl (Remote e), issue (listing_call res handle cursor) w)
                 | Inr page \<Rightarrow> (Inr page, issue (listing_call res handle cursor) w))))"

text \<open>
  The loop \<open>while next_cursor != 0\<close> of \<open>sync_follows\<close> (the same for both resources): it
  need not terminate, so its result is an option.
\<close>

partial_function (option) sync_pages ::
  "remote \<Rightarrow> runtime \<Rightarrow> bot \<Rightarrow> resource \<Rightarrow> int \<Rightarrow> world \<Rightarrow> ((exn + unit) \<times> world) option"
where
  "sync_pages R rt st res cursor w =
     (if cursor = 0 then Some (Inr (), w)
      else (case list_ids R st res (Some cursor) w of
              (Inl e, w1) \<Rightarrow> Some (Inl e, w1)
            | (Inr page, w1) \<Rightarrow>
                (case config st (snapshot_key res) of
                   Inl e \<Rightarrow> Some (Inl e, w1)
                 | Inr p \<Rightarrow>
                     sync_pages R rt st res (next_cursor page)
                       (append_file p (id_lines (py_set (order rt) (ids page))) w1))))"

text \<open>The first call for a resource, the \<open>"wb"\<close> write of its page, then the loop.\<close>

definition sync_resource ::
  "remote \<Rightarrow> runtime \<Rightarrow> bot \<Rightarrow> resource \<Rightarrow> world \<Rightarrow> ((exn + unit) \<times> world) option"
where
  "sync_resource R rt st res w =
     (case list_ids R st res None w of
        (Inl e, w1) \<Rightarrow> Some (Inl e, w1)
      | (Inr page, w1) \<Rightarrow>
          (case config st (snapshot_key res) of
             Inl e \<Rightarrow> Some (Inl e, w1)
           | Inr p \<Rightarrow>
               sync_pages R rt st res (next_cursor page)
                 (write_file p (id_lines (py_set (order rt) (ids page))) w1)))"

definition sync_follows ::
  "remote \<Rightarrow> runtime \<Rightarrow> bot \<Rightarrow> world \<Rightarrow> ((exn + unit) \<times> world) option"
where
  "sync_follows R rt st w =
     (if BOT_CONFIG st = Map.empty then Some (Inr (), print not_set_up w)
      else (case sync_resource R rt st Followers w of
              None \<Rightarrow> None
            | Some (Inl e, w1) \<Rightarrow> Some (Inl e, w1)
            | Some (Inr u, w1) \<Rightarrow> sync_resource R rt st Friends w1))"

section \<open>Searching, favoriting and retweeting\<close>

definition search_tweets ::
  "remote \<Rightarrow> bot \<Rightarrow> string \<Rightarrow> int \<Rightarrow> string \<Rightarrow> world \<Rightarrow> (exn + tweet list option) \<times> world"
where
  "search_tweets R st q count result_type w =
     (if BOT_CONFIG st = Map.empty then (Inr None, print not_set_up w)
      else if \<not> connected st then (Inl AttributeError, w)
      else (case search_tweets_api R (history w) q result_type count of
              Inl e \<Rightarrow> (Inl (Remote e), issue (SearchTweets q result_type count) w)
            | Inr tweets \<Rightarrow> (Inr (Some tweets), issue (SearchTweets q result_type count) w)))"

text \<open>
  The loops over \<open>result["statuses"]\<close>. The \<open>try\<close> of each catches \<open>TwitterHTTPError\<close>
  only; every other exception leaves the loop.
\<close>

fun auto_fav_loop :: "remote \<Rightarrow> bot \<Rightarrow> tweet list \<Rightarrow> world \<Rightarrow> (exn + unit) \<times> world" where
  "auto_fav_loop R st [] w = (Inr (), w)"
| "auto_fav_loop R st (t # ts) w =
     (case config st ''TWITTER_HANDLE'' of
        Inl e \<Rightarrow> (Inl e, w)
      | Inr handle \<Rightarrow>
          if tweet_user_screen_name t = handle then auto_fav_loop R st ts w
          else if \<not> connected st then (Inl AttributeError, w)
          else (case favorites_create R (history w) (tweet_id t) of
                  Inl (TwitterHTTPError m) \<Rightarrow>
                    auto_fav_loop R st ts
                      (if \<not> contains (lower m) ''you have already favorited this status''
                       then print (''error: '' @ m) (issue (FavoritesCreate (tweet_id t)) w)
                       else issue (FavoritesCreate (tweet_id t)) w)
                | Inl (OtherRemoteError m) \<Rightarrow>
                    (Inl (Remote (OtherRemoteError m)), issue (FavoritesCreate (tweet_id t)) w)
                | Inr text \<Rightarrow>
                    auto_fav_loop R st ts
                      (print (''favorited: '' @ text) (issue (FavoritesCreate (tweet_id t)) w))))"

definition auto_fav ::
  "remote \<Rightarrow> bot \<Rightarrow> string \<Rightarrow> int \<Rightarrow> string \<Rightarrow> world \<Rightarrow> (exn + unit) \<times> world"
where
  "auto_fav R st q count result_type w =
     (if BOT_CONFIG st = Map.empty then (Inr (), print not_set_up w)
      else (case search_tweets R st q count result_type w of
              (Inl e, w1) \<Rightarrow> (Inl e, w1)
            | (Inr None, w1) \<Rightarrow> (Inl TypeError, w1)
            | (Inr (Some tweets), w1) \<Rightarrow> auto_fav_loop R st tweets w1))"

fun auto_rt_loop :: "remote \<Rightarrow> bot \<Rightarrow> tweet list \<Rightarrow> world \<Rightarrow> (exn + unit) \<times> world" where
  "auto_rt_loop R st [] w = (Inr (), w)"
| "auto_rt_loop R st (t # ts) w =
     (case config st ''TWITTER_HANDLE'' of
        Inl e \<Rightarrow> (Inl e, w)
      | Inr handle \<Rightarrow>
          if tweet_user_screen_name t = handle then auto_rt_loop R st ts w
          else if \<not> connected st then (Inl AttributeError, w)
          else (case statuses_retweet R (history w) (tweet_id t) of
                  Inl (TwitterHTTPError m) \<Rightarrow>
                    auto_rt_loop R st ts
                      (print (''error: '' @ m) (issue (StatusesRetweet (tweet_id t)) w))
                | Inl (OtherRemoteError m) \<Rightarrow>
                    (Inl (Remote (OtherRemoteError m)), issue (StatusesRetweet (tweet_id t)) w)
                | Inr text \<Rightarrow>
                    auto_rt_loop R st ts
                      (print (''retweeted: '' @ text) (issue (StatusesRetweet (tweet_id t)) w))))"

definition auto_rt ::
  "remote \<Rightarrow> bot \<Rightarrow> string \<Rightarrow> int \<Rightarrow> string \<Rightarrow> world \<Rightarrow> (exn + unit) \<times> world"
where
  "auto_rt R st q count result_type w =
     (if BOT_CONFIG st = Map.empty then (Inr (), print not_set_up w)
      else (case search_tweets R st q count result_type w of
              (Inl e, w1) \<Rightarrow> (Inl e, w1)
            | (Inr None, w1) \<Rightarrow> (Inl TypeError, w1)
            | (Inr (Some tweets), w1) \<Rightarrow> auto_rt_loop R st tweets w1))"

section \<open>Following\<close>

text \<open>
  The loop of \<open>auto_follow\<close>. It updates the set \<open>following\<close> in place, so the set is
  part of the state that the loop returns. \<open>quit()\<close> raises \<open>SystemExit\<close>, which no handler
  of the bot catches.
\<close>

fun auto_follow_loop ::
  "remote \<Rightarrow> runtime \<Rightarrow> bot \<Rightarrow> pyset \<Rightarrow> pyset \<Rightarrow> tweet list \<Rightarrow> world \<Rightarrow> (exn + pyset) \<times> world"
where
  "auto_follow_loop R rt st following do_not_follow [] w = (Inr following, w)"
| "auto_follow_loop R rt st following do_not_follow (t # ts) w =
     (case config st ''TWITTER_HANDLE'' of
        Inl e \<Rightarrow> (Inl e, w)
      | Inr handle \<Rightarrow>
          if tweet_user_screen_name t \<noteq> handle \<and> tweet_user_id t \<notin> set following
             \<and> tweet_user_id t \<notin> set do_not_follow
          then
            if \<not> connected st then (Inl AttributeError, w)
            else (case friendships_create R (history w) (tweet_user_id t) of
                    Inl (TwitterHTTPError m) \<Rightarrow>
                      if \<not> contains (lower m) ''blocked''
                      then (Inl SystemExit,
                            print (''error: '' @ m) (issue (FriendshipsCreate (tweet_user_id t)) w))
                      else auto_follow_loop R rt st following do_not_follow ts
                             (print (''error: '' @ m) (issue (FriendshipsCreate (tweet_user_id t)) w))
                  | Inl (OtherRemoteError m) \<Rightarrow>
                      (Inl (Remote (OtherRemoteError m)), issue (FriendshipsCreate (tweet_user_id t)) w)
                  | Inr u \<Rightarrow>
                      auto_follow_loop R rt st
                        (py_update (order rt) following (py_set (order rt) [tweet_user_id t]))
                        do_not_follow ts
                        (print (''followed '' @ tweet_user_screen_name t)
                           (issue (FriendshipsCreate (tweet_user_id t)) w)))
          else auto_follow_loop R rt st following do_not_follow ts w)"

text \<open>The end of an operation whose loop has run: the exception, or \<open>None\<close>.\<close>

fun finished :: "(exn + 'a) \<times> world \<Rightarrow> (exn + unit) \<times> world" where
  "finished (Inl e, w) = (Inl e, w)"
| "finished (Inr x, w) = (Inr (), w)"

definition auto_follow ::
  "remote \<Rightarrow> runtime \<Rightarrow> bot \<Rightarrow> string \<Rightarrow> int \<Rightarrow> string \<Rightarrow> world \<Rightarrow> (exn + unit) \<times> world"
where
  "auto_follow R rt st q count result_type w =
     (if BOT_CONFIG st = Map.empty then (Inr (), print not_set_up w)
      else (case search_tweets R st q count result_type w of
              (Inl e, w1) \<Rightarrow> (Inl e, w1)
            | (Inr result, w1) \<Rightarrow>
                (case get_follows_list rt st w1 of
                   (Inl e, w2) \<Rightarrow> (Inl e, w2)
                 | (Inr following, w2) \<Rightarrow>
                     (case get_do_not_follow_list rt st w2 of
                        (Inl e, w3) \<Rightarrow> (Inl e, w3)
                      | (Inr do_not_follow, w3) \<Rightarrow>
                          (case (result, following, do_not_follow) of
                             (Some tweets, Some fs, Some dnf) \<Rightarrow>
                               finished (auto_follow_loop R rt st fs dnf tweets w3)
                           | _ \<Rightarrow> (Inl TypeError, w3))))))"

text \<open>
  The loop of \<open>auto_follow_followers\<close>: \<open>except Exception\<close> catches whatever the call
  raises, also the \<open>AttributeError\<close> of a missing connection.
\<close>

fun auto_follow_followers_loop :: "remote \<Rightarrow> bot \<Rightarrow> pyset \<Rightarrow> world \<Rightarrow> (exn + unit) \<times> world" where
  "auto_follow_followers_loop R st [] w = (Inr (), w)"
| "auto_follow_followers_loop R st (u # us) w =
     (if \<not> connected st
      then auto_follow_followers_loop R st us (print (''error: '' @ no_friendships) w)
      else (case friendships_create R (history w) u of
              Inl e \<Rightarrow>
                auto_follow_followers_loop R st us
                  (print (''error: '' @ str_remote e) (issue (FriendshipsCreate u) w))
            | Inr r \<Rightarrow> auto_follow_followers_loop R st us (issue (FriendshipsCreate u) w)))"

definition auto_follow_followers ::
  "remote \<Rightarrow> runtime \<Rightarrow> bot \<Rightarrow> world \<Rightarrow> (exn + unit) \<times> world"
where
  "auto_follow_followers R rt st w =
     (if BOT_CONFIG st = Map.empty then (Inr (), print not_set_up w)
      else (case get_follows_list rt st w of
              (Inl e, w1) \<Rightarrow> (Inl e, w1)
            | (Inr following, w1) \<Rightarrow>
                (case get_followers_list rt st w1 of
                   (Inl e, w2) \<Rightarrow> (Inl e, w2)
                 | (Inr followers, w2) \<Rightarrow>
                     (case (followers, following) of
                        (Some fw, Some fg) \<Rightarrow>
                          auto_follow_followers_loop R st (py_difference (order rt) fw fg) w2
                      | _ \<Rightarrow> (Inl TypeError, w2)))))"

text \<open>\<open>xs[:count]\<close>: a negative \<open>count\<close> counts from the end.\<close>

definition slice_to :: "int \<Rightarrow> 'a list \<Rightarrow> 'a list" where
  "slice_to count xs =
     (if 0 \<le> count then take (nat count) xs else take (length xs - nat (- count)) xs)"

fun auto_follow_followers_of_user_loop ::
  "remote \<Rightarrow> bot \<Rightarrow> pyset \<Rightarrow> pyset \<Rightarrow> pyset \<Rightarrow> world \<Rightarrow> (exn + unit) \<times> world"
where
  "auto_follow_followers_of_user_loop R st following do_not_follow [] w = (Inr (), w)"
| "auto_follow_followers_of_user_loop R st following do_not_follow (u # us) w =
     (if u \<notin> set following \<and> u \<notin> set do_not_follow
      then
        if \<not> connected st then (Inl AttributeError, w)
        else (case friendships_create R (history w) u of
                Inl (TwitterHTTPError m) \<Rightarrow>
                  auto_follow_followers_of_user_loop R st following do_not_follow us
                    (print (''error: '' @ m) (issue (FriendshipsCreate u) w))
              | Inl (OtherRemoteError m) \<Rightarrow>
                  (Inl (Remote (OtherRemoteError m)), issue (FriendshipsCreate u) w)
              | Inr r \<Rightarrow>
                  auto_follow_followers_of_user_loop R st following do_not_follow us
                    (print (''followed '' @ str_int u) (issue (FriendshipsCreate u) w)))
      else auto_follow_followers_of_user_loop R st following do_not_follow us w)"

definition auto_follow_followers_of_user ::
  "remote \<Rightarrow> runtime \<Rightarrow> bot \<Rightarrow> string \<Rightarrow> int \<Rightarrow> world \<Rightarrow> (exn + unit) \<times> world"
where
  "auto_follow_followers_of_user R rt st user_screen_name count w =
     (if BOT_CONFIG st = Map.empty then (Inr (), print not_set_up w)
      else (case get_follows_list rt st w of
              (Inl e, w1) \<Rightarrow> (Inl e, w1)
            | (Inr following, w1) \<Rightarrow>
                if \<not> connected st then (Inl AttributeError, w1)
                else (case followers_ids R (history w1) user_screen_name None of
                        Inl e \<Rightarrow> (Inl (Remote e), issue (FollowersIds user_screen_name None) w1)
                      | Inr page \<Rightarrow>
                          (case get_do_not_follow_list rt st
                                  (issue (FollowersIds user_screen_name None) w1) of
                             (Inl e, w2) \<Rightarrow> (Inl e, w2)
                           | (Inr do_not_follow, w2) \<Rightarrow>
                               (case (following, do_not_follow) of
                                  (Some fg, Some dnf) \<Rightarrow>
                                    auto_follow_followers_of_user_loop R st fg dnf
                                      (py_set (order rt) (slice_to count (ids page))) w2
                                | _ \<Rightarrow> (Inl TypeError, w2))))))"

section \<open>Unfollowing and muting\<close>

text \<open>
  The loops of \<open>auto_unfollow_nonfollowers\<close>, \<open>auto_mute_following\<close> and \<open>auto_unmute\<close>
  have one shape: for each element that is not in the keep-set, the remote call and a
  \<open>print\<close>, with no \<open>try\<close> around them. \<open>endpoint\<close> is the remote call, \<open>mk\<close> its entry
  in the trace, \<open>said\<close> the printed prefix.
\<close>

fun mutate_each ::
  "(call list \<Rightarrow> int \<Rightarrow> remote_error + unit) \<Rightarrow> (int \<Rightarrow> call) \<Rightarrow> string \<Rightarrow> bot \<Rightarrow> pyset \<Rightarrow> pyset
     \<Rightarrow> world \<Rightarrow> (exn + unit) \<times> world"
where
  "mutate_each endpoint mk said st keep [] w = (Inr (), w)"
| "mutate_each endpoint mk said st keep (u # us) w =
     (if u \<notin> set keep
      then
        if \<not> connected st then (Inl AttributeError, w)
        else (case endpoint (history w) u of
                Inl e \<Rightarrow> (Inl (Remote e), issue (mk u) w)
              | Inr r \<Rightarrow>
                  mutate_each endpoint mk said st keep us
                    (print (said @ str_int u) (issue (mk u) w)))
      else mutate_each endpoint mk said st keep us w)"

text \<open>
  \<open>users_keep_following\<close> is the local constant of the source, \<open>set([])\<close> as shipped, which
  its comment asks the user to edit; it is a parameter here. The same holds for
  \<open>users_keep_unmuted\<close> and \<open>users_keep_muted\<close> below.
\<close>

definition auto_unfollow_nonfollowers ::
  "pyset \<Rightarrow> remote \<Rightarrow> runtime \<Rightarrow> bot \<Rightarrow> world \<Rightarrow> (exn + unit) \<times> world"
where
  "auto_unfollow_nonfollowers users_keep_following R rt st w =
     (if BOT_CONFIG st = Map.empty then (Inr (), print not_set_up w)
      else (case get_follows_list rt st w of
              (Inl e, w1) \<Rightarrow> (Inl e, w1)
            | (Inr following, w1) \<Rightarrow>
                (case get_followers_list rt st w1 of
                   (Inl e, w2) \<Rightarrow> (Inl e, w2)
                 | (Inr followers, w2) \<Rightarrow>
                     (case (following, followers) of
                        (Some fg, Some fw) \<Rightarrow>
                          (case config st ''ALREADY_FOLLOWED_FILE'' of
                             Inl e \<Rightarrow> (Inl e, w2)
                           | Inr p \<Rightarrow>
                               (case read_ids w2 p of
                                  Inl e \<Rightarrow> (Inl e, w2)
                                | Inr already_followed_list \<Rightarrow>
                                    mutate_each (friendships_destroy R) FriendshipsDestroy
                                      ''unfollowed '' st users_keep_following
                                      (py_difference (order rt) fg fw)
                                      (write_file p
                                         (id_lines
                                            (py_update (order rt)
                                               (py_set (order rt) (py_difference (order rt) fg fw))
                                               (py_set (order rt) already_followed_list)))
                                         w2)))
                      | _ \<Rightarrow> (Inl TypeError, w2)))))"

text \<open>
  \<open>set(self.TWITTER_CONNECTION.mutes.users.ids(screen_name=self.BOT_CONFIG["TWITTER_HANDLE"])["ids"])\<close>
\<close>

definition muted_ids :: "remote \<Rightarrow> runtime \<Rightarrow> bot \<Rightarrow> world \<Rightarrow> (exn + pyset) \<times> world" where
  "muted_ids R rt st w =
     (if \<not> connected st then (Inl AttributeError, w)
      else (case config st ''TWITTER_HANDLE'' of
              Inl e \<Rightarrow> (Inl e, w)
            | Inr handle \<Rightarrow>
                (case mutes_users_ids R (history w) handle of
                   Inl e \<Rightarrow> (Inl (Remote e), issue (MutesUsersIds handle) w)
                 | Inr xs \<Rightarrow> (Inr (py_set (order rt) xs), issue (MutesUsersIds handle) w))))"

definition auto_mute_following ::
  "pyset \<Rightarrow> remote \<Rightarrow> runtime \<Rightarrow> bot \<Rightarrow> world \<Rightarrow> (exn + unit) \<times> world"
where
  "auto_mute_following users_keep_unmuted R rt st w =
     (if BOT_CONFIG st = Map.empty then (Inr (), print not_set_up w)
      else (case get_follows_list rt st w of
              (Inl e, w1) \<Rightarrow> (Inl e, w1)
            | (Inr following, w1) \<Rightarrow>
                (case muted_ids R rt st w1 of
                   (Inl e, w2) \<Rightarrow> (Inl e, w2)
                 | (Inr muted, w2) \<Rightarrow>
                     (case following of
                        Some fg \<Rightarrow>
                          mutate_each (mutes_users_create R) MutesUsersCreate ''muted '' st
                            users_keep_unmuted (py_difference (order rt) fg muted) w2
                      | None \<Rightarrow> (Inl TypeError, w2)))))"

definition auto_unmute ::
  "pyset \<Rightarrow> remote \<Rightarrow> runtime \<Rightarrow> bot \<Rightarrow> world \<Rightarrow> (exn + unit) \<times> world"
where
  "auto_unmute users_keep_muted R rt st w =
     (if BOT_CONFIG st = Map.empty then (Inr (), print not_set_up w)
      else (case muted_ids R rt st w of
              (Inl e, w1) \<Rightarrow> (Inl e, w1)
            | (Inr muted, w1) \<Rightarrow>
                mutate_each (mutes_users_destroy R) MutesUsersDestroy ''unmuted '' st
                  users_keep_muted muted w1))"

section \<open>Setting the bot up\<close>

definition required_parameters :: "string list" where
  "required_parameters =
     [''OAUTH_TOKEN'', ''OAUTH_SECRET'', ''CONSUMER_KEY'', ''CONSUMER_SECRET'',
      ''TWITTER_HANDLE'', ''ALREADY_FOLLOWED_FILE'', ''FOLLOWERS_FILE'', ''FOLLOWS_FILE'']"

text \<open>
  The loop over the lines of the configuration file: \<open>line[1]\<close> raises \<open>IndexError\<close> on a
  line without a colon, and the entries read before it stay in \<open>BOT_CONFIG\<close>.
\<close>

fun read_config :: "string list \<Rightarrow> (string \<rightharpoonup> string) \<Rightarrow> (exn + unit) \<times> (string \<rightharpoonup> string)" where
  "read_config [] cfg = (Inr (), cfg)"
| "read_config (line # lines) cfg =
     (case split_on CHR '':'' line of
        parameter # val # rest \<Rightarrow> read_config lines (cfg(strip parameter \<mapsto> strip val))
      | _ \<Rightarrow> (Inl IndexError, cfg))"

text \<open>\<open>required_parameter not in self.BOT_CONFIG or self.BOT_CONFIG[required_parameter] == ""\<close>\<close>

definition missing :: "(string \<rightharpoonup> string) \<Rightarrow> string \<Rightarrow> bool" where
  "missing cfg k = (case cfg k of None \<Rightarrow> True | Some v \<Rightarrow> v = [])"

fun lookups :: "(string \<rightharpoonup> string) \<Rightarrow> string list \<Rightarrow> exn + string list" where
  "lookups cfg [] = Inr []"
| "lookups cfg (k # ks) =
     (case cfg k of
        None \<Rightarrow> Inl (KeyError k)
      | Some v \<Rightarrow> (case lookups cfg ks of Inl e \<Rightarrow> Inl e | Inr vs \<Rightarrow> Inr (v # vs)))"

text \<open>\<open>if not os.path.isfile(sync_file): \<dots> out_file.write("")\<close>\<close>

definition ensure_file :: "path \<Rightarrow> world \<Rightarrow> world" where
  "ensure_file p w = (if files w p = None then write_file p [] w else w)"

definition stale_warning :: string where
  "stale_warning = ''Warning: Your Twitter follower sync files are more than a day old. ''
     @ ''It is highly recommended that you sync them by calling sync_follows().''"

text \<open>
  \<open>bot_setup\<close> returns the bot as well, since it assigns \<open>self.BOT_CONFIG\<close> and
  \<open>self.TWITTER_CONNECTION\<close>. \<open>file_age rt p\<close> stands for
  \<open>time.time() - os.path.getmtime(p)\<close>. The values looked up after the validation are
  present, so \<open>lookups\<close> does not fail there.
\<close>

definition bot_setup ::
  "runtime \<Rightarrow> path \<Rightarrow> bot \<Rightarrow> world \<Rightarrow> (exn + unit) \<times> bot \<times> world"
where
  "bot_setup rt config_file st w =
     (case files w config_file of
        None \<Rightarrow> (Inl (IOError config_file), st, w)
      | Some content \<Rightarrow>
          (case read_config (file_lines content) (BOT_CONFIG st) of
             (Inl e, cfg) \<Rightarrow> (Inl e, st\<lparr>BOT_CONFIG := cfg\<rparr>, w)
           | (Inr u, cfg) \<Rightarrow>
               if filter (missing cfg) required_parameters \<noteq> []
               then (Inr (), st\<lparr>BOT_CONFIG := Map.empty\<rparr>,
                     print ([newline] @ ''Please edit '' @ config_file
                              @ '' to include the parameters listed above and run bot_setup() again.''
                              @ [newline])
                       (foldl (\<lambda>w' k. print (''Missing config parameter: '' @ k) w') w
                          (filter (missing cfg) required_parameters)))
               else (case lookups cfg [''ALREADY_FOLLOWED_FILE'', ''FOLLOWS_FILE'', ''FOLLOWERS_FILE'',
                                       ''OAUTH_TOKEN'', ''OAUTH_SECRET'', ''CONSUMER_KEY'',
                                       ''CONSUMER_SECRET''] of
                       Inr [already, follows, followers, token, secret, ckey, csecret] \<Rightarrow>
                         (Inr (),
                          st\<lparr>BOT_CONFIG := cfg,
                             TWITTER_CONNECTION := Some (token, secret, ckey, csecret)\<rparr>,
                          (if 86400 < file_age rt follows \<or> 86400 < file_age rt followers
                           then print stale_warning else id)
                            (ensure_file followers (ensure_file follows (ensure_file already w))))
                     | Inr vs \<Rightarrow> (Inl TypeError, st\<lparr>BOT_CONFIG := cfg\<rparr>, w)
                     | Inl e \<Rightarrow> (Inl e, st\<lparr>BOT_CONFIG := cfg\<rparr>, w))))"

text \<open>\<open>__init__\<close>: an empty configuration, no connection, then \<open>bot_setup\<close>.\<close>

definition TwitterBot_init :: "runtime \<Rightarrow> path \<Rightarrow> world \<Rightarrow> (exn + unit) \<times> bot \<times> world" where
  "TwitterBot_init rt config_file w =
     bot_setup rt config_file \<lparr>BOT_CONFIG = Map.empty, TWITTER_CONNECTION = None\<rparr> w"

section \<open>A concrete bot, runtime and remote\<close>

text \<open>Concrete values on which the theorems below are instantiated.\<close>

definition example_config :: "string \<rightharpoonup> string" where
  "example_config =
     [''OAUTH_TOKEN'' \<mapsto> ''token'', ''OAUTH_SECRET'' \<mapsto> ''secret'',
      ''CONSUMER_KEY'' \<mapsto> ''key'', ''CONSUMER_SECRET'' \<mapsto> ''csecret'',
      ''TWITTER_HANDLE'' \<mapsto> ''me'', ''ALREADY_FOLLOWED_FILE'' \<mapsto> ''already.txt'',
      ''FOLLOWERS_FILE'' \<mapsto> ''followers.txt'', ''FOLLOWS_FILE'' \<mapsto> ''following.txt'']"

definition example_bot :: bot where
  "example_bot =
     \<lparr>BOT_CONFIG = example_config,
      TWITTER_CONNECTION = Some (''token'', ''secret'', ''key'', ''csecret'')\<rparr>"

definition unconfigured_bot :: bot where
  "unconfigured_bot = \<lparr>BOT_CONFIG = Map.empty, TWITTER_CONNECTION = None\<rparr>"

definition example_runtime :: runtime where
  "example_runtime = \<lparr>order = insertion_order, file_age = (\<lambda>p. 0)\<rparr>"

definition world_with :: "(path \<times> string) list \<Rightarrow> world" where
  "world_with fs = \<lparr>files = map_of fs, trace = [], stdout = []\<rparr>"

text \<open>A remote on which every call succeeds and every listing is empty.\<close>

definition quiet_remote :: remote where
  "quiet_remote =
     \<lparr>followers_ids = (\<lambda>h name c. Inr \<lparr>ids = [], next_cursor = 0\<rparr>),
      friends_ids = (\<lambda>h name c. Inr \<lparr>ids = [], next_cursor = 0\<rparr>),
      search_tweets_api = (\<lambda>h q t n. Inr []),
      favorites_create = (\<lambda>h i. Inr []),
      statuses_retweet = (\<lambda>h i. Inr []),
      friendships_create = (\<lambda>h u. Inr ()),
      friendships_destroy = (\<lambda>h u. Inr ()),
      mutes_users_ids = (\<lambda>h name. Inr []),
      mutes_users_create = (\<lambda>h u. Inr ()),
      mutes_users_destroy = (\<lambda>h u. Inr ())\<rparr>"

section \<open>Scripted answers of the listing endpoints\<close>

text \<open>
  \<open>pages_from R res handle h cursor pages stop\<close>: asked for the resource \<open>res\<close> of
  \<open>handle\<close> with \<open>cursor\<close> after the calls \<open>h\<close>, and then with each cursor it returned, the
  remote \<open>R\<close> answers with \<open>pages\<close> in turn; after them it either has returned the cursor 0
  (\<open>stop = None\<close>) or raises \<open>e\<close> on the next call (\<open>stop = Some e\<close>).
\<close>

fun pages_from ::
  "remote \<Rightarrow> resource \<Rightarrow> string \<Rightarrow> call list \<Rightarrow> int option \<Rightarrow> ids_page list \<Rightarrow> remote_error option \<Rightarrow> bool"
where
  "pages_from R res handle h cursor [] stop =
     (case stop of None \<Rightarrow> False | Some e \<Rightarrow> listing R res h handle cursor = Inl e)"
| "pages_from R res handle h cursor (page # pages) stop =
     (listing R res h handle cursor = Inr page
      \<and> (if next_cursor page = 0 then pages = [] \<and> stop = None
         else pages_from R res handle (h @ [listing_call res handle cursor])
                (Some (next_cursor page)) pages stop))"

definition page_lines :: "runtime \<Rightarrow> ids_page list \<Rightarrow> string" where
  "page_lines rt pages = concat (map (\<lambda>page. id_lines (py_set (order rt) (ids page))) pages)"

definition cursors_of :: "ids_page list \<Rightarrow> remote_error option \<Rightarrow> int option list" where
  "cursors_of pages stop =
     take (length pages + (if stop = None then 0 else 1)) (None # map (\<lambda>page. Some (next_cursor page)) pages)"

fun raised :: "remote_error option \<Rightarrow> exn + unit" where
  "raised None = Inr ()"
| "raised (Some e) = Inl (Remote e)"

definition three_page_remote :: remote where
  "three_page_remote =
     quiet_remote\<lparr>followers_ids :=
       (\<lambda>h name c.
          if c = None then Inr \<lparr>ids = [1, 2], next_cursor = 5\<rparr>
          else if c = Some 5 then Inr \<lparr>ids = [3], next_cursor = 9\<rparr>
          else Inr \<lparr>ids = [2, 4], next_cursor = 0\<rparr>)\<rparr>"

text \<open>
  A remote whose answers to the listing calls do not depend on the calls made before:
  the remote state is fixed.
\<close>

definition fixed_listings :: "remote \<Rightarrow> bool" where
  "fixed_listings R \<longleftrightarrow>
     (\<forall>h h' name c. followers_ids R h name c = followers_ids R h' name c)
     \<and> (\<forall>h h' name c. friends_ids R h name c = friends_ids R h' name c)"

text \<open>Remotes whose listing of the accounts followed fails: on the second page, on the first call.\<close>

definition failing_friends_remote :: remote where
  "failing_friends_remote =
     quiet_remote\<lparr>friends_ids :=
       (\<lambda>h name c.
          if c = None then Inr \<lparr>ids = [], next_cursor = 5\<rparr>
          else Inl (TwitterHTTPError ''Rate limit exceeded''))\<rparr>"

definition friends_down_remote :: remote where
  "friends_down_remote =
     quiet_remote\<lparr>followers_ids := (\<lambda>h name c. Inr \<lparr>ids = [1, 2], next_cursor = 0\<rparr>),
                  friends_ids := (\<lambda>h name c. Inl (TwitterHTTPError ''Over capacity''))\<rparr>"

text \<open>Worlds with snapshot files, remotes that refuse some calls, and two tweets.\<close>

definition followers_123_following_234 :: world where
  "followers_123_following_234 =
     world_with [(''followers.txt'', [CHR ''1'', newline, CHR ''2'', newline, CHR ''3'', newline]),
                 (''following.txt'', [CHR ''2'', newline, CHR ''3'', newline, CHR ''4'', newline]),
                 (''already.txt'', [])]"

definition followers_123_following_2345 :: world where
  "followers_123_following_2345 =
     world_with [(''followers.txt'', [CHR ''1'', newline, CHR ''2'', newline, CHR ''3'', newline]),
                 (''following.txt'', [CHR ''2'', newline, CHR ''3'', newline, CHR ''4'', newline,
                                      CHR ''5'', newline]),
                 (''already.txt'', [CHR ''9'', newline])]"

definition refusing_remote :: remote where
  "refusing_remote =
     quiet_remote\<lparr>
       friendships_create :=
         (\<lambda>h u. if u = 1 then Inl (TwitterHTTPError ''Rate limit exceeded'') else Inr ()),
       friendships_destroy :=
         (\<lambda>h u. if u = 1 then Inl (TwitterHTTPError ''Rate limit exceeded'') else Inr ()),
       mutes_users_create :=
         (\<lambda>h u. if u = 1 then Inl (TwitterHTTPError ''Rate limit exceeded'') else Inr ()),
       mutes_users_destroy :=
         (\<lambda>h u. if u = 1 then Inl (TwitterHTTPError ''Rate limit exceeded'') else Inr ())\<rparr>"

definition following_12 :: world where
  "following_12 =
     world_with [(''followers.txt'', []),
                 (''following.txt'', [CHR ''1'', newline, CHR ''2'', newline]),
                 (''already.txt'', [])]"

definition alice_tweet :: tweet where
  "alice_tweet = \<lparr>tweet_id = 100, tweet_text = ''hello'', tweet_user_id = 1,
                   tweet_user_screen_name = ''alice''\<rparr>"

definition bob_tweet :: tweet where
  "bob_tweet = \<lparr>tweet_id = 101, tweet_text = ''hello'', tweet_user_id = 2,
                 tweet_user_screen_name = ''bob''\<rparr>"

definition shouting_remote :: remote where
  "shouting_remote =
     quiet_remote\<lparr>
       search_tweets_api := (\<lambda>h q t n. Inr [alice_tweet, bob_tweet]),
       friendships_create :=
         (\<lambda>h u. if u = 1 then Inl (TwitterHTTPError ''You have been BLOCKED'') else Inr ())\<rparr>"

definition no_snapshots :: world where
  "no_snapshots =
     world_with [(''followers.txt'', []), (''following.txt'', []), (''already.txt'', [])]"

text \<open>Two configuration files: one blanks a required parameter, one changes the handle.\<close>

definition blank_token_text :: string where
  "blank_token_text = ''OAUTH_TOKEN:'' @ [newline]"

definition new_handle_text :: string where
  "new_handle_text = ''TWITTER_HANDLE: other'' @ [newline]"

definition blank_token_file :: world where
  "blank_token_file = world_with [(''config.txt'', blank_token_text)]"

definition new_handle_file :: world where
  "new_handle_file = world_with [(''config.txt'', new_handle_text)]"

section \<open>Decimal numerals and snapshot files\<close>

lemma digit_val_digit_char: "d < 10 \<Longrightarrow> digit_val (digit_char d) = Some d"
proof -
  assume "d < 10"
  then have "d \<in> {0, 1, 2, 3, 4, 5, 6, 7, 8, 9}" by auto
  then show ?thesis by (auto simp: digit_val_def digit_char_def)
qed

lemma digit_char_plain:
  "d < 10 \<Longrightarrow> digit_char d \<notin> set whitespace \<and> digit_char d \<noteq> CHR ''-'' \<and> digit_char d \<noteq> CHR ''+''
     \<and> digit_char d \<noteq> newline"
proof -
  assume "d < 10"
  then have "d \<in> {0, 1, 2, 3, 4, 5, 6, 7, 8, 9}" by auto
  then show ?thesis by (auto simp: digit_char_def whitespace_def newline_def)
qed

lemma digits_val_append:
  "digits_val acc (xs @ ys) = (case digits_val acc xs of None \<Rightarrow> None | Some v \<Rightarrow> digits_val v ys)"
  by (induction xs arbitrary: acc) (auto split: option.splits)

lemma digits_val_str_nat: "digits_val 0 (str_nat n) = Some n"
proof (induction n rule: str_nat.induct)
  case (1 n)
  show ?case
  proof (cases "n < 10")
    case True
    then show ?thesis by (subst str_nat.simps) (simp add: digit_val_digit_char)
  next
    case False
    then have "digits_val 0 (str_nat (n div 10)) = Some (n div 10)" using 1 by simp
    with False show ?thesis
      by (subst str_nat.simps) (simp add: digits_val_append digit_val_digit_char)
  qed
qed

lemma str_nat_plain:
  "str_nat n \<noteq> [] \<and> (\<forall>c \<in> set (str_nat n). c \<notin> set whitespace \<and> c \<noteq> CHR ''-'' \<and> c \<noteq> CHR ''+'' \<and> c \<noteq> newline)"
proof (induction n rule: str_nat.induct)
  case (1 n)
  show ?case
  proof (cases "n < 10")
    case True
    then show ?thesis by (subst (1 2) str_nat.simps) (simp add: digit_char_plain)
  next
    case False
    with 1 show ?thesis
      by (subst (1 2) str_nat.simps) (simp add: digit_char_plain)
  qed
qed

lemma parse_nat_str_nat: "parse_nat (str_nat n) = Some n"
  using str_nat_plain [of n] by (simp add: parse_nat_def digits_val_str_nat)

lemma strip_plain:
  assumes "s \<noteq> []" "\<forall>c \<in> set s. c \<notin> set whitespace"
  shows "strip (s @ [newline]) = s"
proof -
  obtain c cs where s: "s = c # cs" using assms(1) by (cases s) auto
  have 1: "dropWhile (\<lambda>c. c \<in> set whitespace) (s @ [newline]) = s @ [newline]"
    using assms(2) by (simp add: s)
  obtain d ds where r: "rev s = d # ds" using assms(1) by (cases "rev s") auto
  have "d \<in> set s" using r by (metis list.set_intros(1) set_rev)
  then have d: "d \<notin> set whitespace" using assms(2) by blast
  have nl: "newline \<in> set whitespace" by (simp add: whitespace_def newline_def)
  have 2: "dropWhile (\<lambda>c. c \<in> set whitespace) (rev (s @ [newline])) = rev s"
    using d nl by (simp add: r)
  show ?thesis by (simp only: strip_def 1 2 rev_rev_ident)
qed

lemma str_int_plain:
  "str_int i \<noteq> [] \<and> (\<forall>c \<in> set (str_int i). c \<notin> set whitespace \<and> c \<noteq> newline)"
  using str_nat_plain [of "nat i"] str_nat_plain [of "nat (- i)"]
  by (auto simp: str_int_def whitespace_def newline_def)

lemma py_int_str_int: "py_int (str_int i @ [newline]) = Some i"
proof -
  have s: "strip (str_int i @ [newline]) = str_int i"
    using str_int_plain [of i] by (intro strip_plain) auto
  show ?thesis
  proof (cases "i < 0")
    case True
    then have "strip (CHR ''-'' # str_nat (nat (- i)) @ [newline]) = CHR ''-'' # str_nat (nat (- i))"
      using s by (simp add: str_int_def)
    with True show ?thesis by (simp add: py_int_def str_int_def parse_nat_str_nat)
  next
    case False
    obtain c cs where n: "str_nat (nat i) = c # cs"
      using str_nat_plain [of "nat i"] by (cases "str_nat (nat i)") auto
    have "c \<noteq> CHR ''-'' \<and> c \<noteq> CHR ''+''"
      using str_nat_plain [of "nat i"] by (simp add: n)
    moreover have "parse_nat (c # cs) = Some (nat i)"
      using parse_nat_str_nat [of "nat i"] by (simp add: n)
    moreover have "strip (c # cs @ [newline]) = c # cs"
      using s False by (simp add: str_int_def n)
    ultimately show ?thesis using False by (simp add: py_int_def str_int_def n)
  qed
qed

lemma file_lines_line:
  "newline \<notin> set l \<Longrightarrow> file_lines (l @ newline # rest) = (l @ [newline]) # file_lines rest"
  by (induction l) auto

lemma file_lines_id_lines:
  "file_lines (id_lines s) = map (\<lambda>i. str_int i @ [newline]) s"
proof (induction s)
  case Nil
  show ?case by (simp add: id_lines_def)
next
  case (Cons i s)
  have "newline \<notin> set (str_int i)" using str_int_plain [of i] by blast
  then have "file_lines (str_int i @ newline # id_lines s) = (str_int i @ [newline]) # file_lines (id_lines s)"
    by (rule file_lines_line)
  with Cons show ?case by (simp add: id_lines_def)
qed

lemma int_lines_str_int: "int_lines (map (\<lambda>i. str_int i @ [newline]) s) = Inr s"
  by (induction s) (simp_all add: py_int_str_int)

lemma read_ids_written: "files w p = Some (id_lines s) \<Longrightarrow> read_ids w p = Inr s"
  by (simp add: read_ids_def file_lines_id_lines int_lines_str_int)

lemma id_lines_append: "id_lines (a @ b) = id_lines a @ id_lines b"
  by (simp add: id_lines_def)

lemma read_ids_empty: "files w p = Some [] \<Longrightarrow> read_ids w p = Inr []"
  by (simp add: read_ids_def)

lemma load_snapshot_ready:
  "BOT_CONFIG st key = Some p \<Longrightarrow> read_ids w p = Inr xs \<Longrightarrow>
     load_snapshot rt st key w = (Inr (Some (py_set (order rt) xs)), w)"
  by (auto simp: load_snapshot_def config_def)

lemma py_set_ok: "set_order_ok ord \<Longrightarrow> distinct (py_set ord xs) \<and> set (py_set ord xs) = set xs"
  by (simp add: set_order_ok_def py_set_def)

lemma insertion_order_ok: "set_order_ok insertion_order"
  by (simp add: set_order_ok_def insertion_order_def)

section \<open>The snapshot round trip\<close>

text \<open>
  Claim C7. For every set of identifiers (here: its elements \<open>s\<close> in any order), a loader
  applied after the file of its role was replaced by \<open>s\<close>, one decimal identifier per
  line as \<open>sync_follows\<close> writes them, returns exactly that set; and a loader applied to a
  file that exists and is empty returns the empty set. This holds for each of the three
  loaders.
\<close>

theorem snapshot_round_trip:
  assumes "set_order_ok (order rt)"
    and "(loader, key) \<in> {(get_followers_list, ''FOLLOWERS_FILE''),
                            (get_follows_list, ''FOLLOWS_FILE''),
                            (get_do_not_follow_list, ''ALREADY_FOLLOWED_FILE'')}"
    and "BOT_CONFIG st key = Some p"
  shows "(\<exists>s'. loader rt st (write_file p (id_lines s) w) = (Inr (Some s'), write_file p (id_lines s) w)
               \<and> distinct s' \<and> set s' = set s)
       \<and> (\<exists>s'. loader rt st (write_file p [] w) = (Inr (Some s'), write_file p [] w) \<and> set s' = {})"
proof -
  have l: "loader rt st = load_snapshot rt st key"
    using assms(2)
    by (auto simp: get_followers_list_def get_follows_list_def get_do_not_follow_list_def fun_eq_iff)
  have 1: "read_ids (write_file p (id_lines s) w) p = Inr s"
    by (rule read_ids_written) (simp add: write_file_def)
  have 2: "read_ids (write_file p [] w) p = Inr []"
    by (rule read_ids_empty) (simp add: write_file_def)
  show ?thesis
    using py_set_ok [OF assms(1), of s] py_set_ok [OF assms(1), of "[]"]
    by (simp add: l load_snapshot_ready [OF assms(3) 1] load_snapshot_ready [OF assms(3) 2])
qed

theorem snapshot_round_trip_witness:
  "set_order_ok (order example_runtime)
   \<and> (get_followers_list, ''FOLLOWERS_FILE'') \<in>
        {(get_followers_list, ''FOLLOWERS_FILE''), (get_follows_list, ''FOLLOWS_FILE''),
         (get_do_not_follow_list, ''ALREADY_FOLLOWED_FILE'')}
   \<and> BOT_CONFIG example_bot ''FOLLOWERS_FILE'' = Some ''followers.txt''
   \<and> (\<exists>s'. get_followers_list example_runtime example_bot
               (write_file ''followers.txt'' (id_lines [3, 1, 2]) (world_with []))
             = (Inr (Some s'), write_file ''followers.txt'' (id_lines [3, 1, 2]) (world_with []))
           \<and> distinct s' \<and> set s' = {1, 2, 3})
   \<and> (\<exists>s'. get_followers_list example_runtime example_bot
               (write_file ''followers.txt'' [] (world_with []))
             = (Inr (Some s'), write_file ''followers.txt'' [] (world_with [])) \<and> set s' = {})"
proof -
  have 1: "set_order_ok (order example_runtime)"
    by (simp add: example_runtime_def insertion_order_ok)
  have 2: "(get_followers_list, ''FOLLOWERS_FILE'') \<in>
        {(get_followers_list, ''FOLLOWERS_FILE''), (get_follows_list, ''FOLLOWS_FILE''),
         (get_do_not_follow_list, ''ALREADY_FOLLOWED_FILE'')}"
    by (rule insertI1)
  have 3: "BOT_CONFIG example_bot ''FOLLOWERS_FILE'' = Some ''followers.txt''"
    by (simp add: example_bot_def example_config_def)
  have 4: "set [3, 1, 2] = {1, 2, 3::int}" by auto
  show ?thesis
    using snapshot_round_trip [OF 1 2 3, of "[3, 1, 2]" "world_with []"] 1 2 3
    unfolding 4 by blast
qed

section \<open>The unconfigured bot\<close>

text \<open>
  Claim C8. With an empty configuration every public operation only prints the
  not-set-up message and returns \<open>None\<close>: the files and the trace of remote calls are
  unchanged. This covers \<open>sync_follows\<close>, the three loaders, \<open>search_tweets\<close> and the bulk
  operations, for all their arguments.
\<close>

theorem unconfigured_no_op:
  assumes "BOT_CONFIG st = Map.empty"
  shows "sync_follows R rt st w = Some (Inr (), print not_set_up w)
       \<and> get_do_not_follow_list rt st w = (Inr None, print not_set_up w)
       \<and> get_followers_list rt st w = (Inr None, print not_set_up w)
       \<and> get_follows_list rt st w = (Inr None, print not_set_up w)
       \<and> search_tweets R st q count result_type w = (Inr None, print not_set_up w)
       \<and> auto_fav R st q count result_type w = (Inr (), print not_set_up w)
       \<and> auto_rt R st q count result_type w = (Inr (), print not_set_up w)
       \<and> auto_follow R rt st q count result_type w = (Inr (), print not_set_up w)
       \<and> auto_follow_followers R rt st w = (Inr (), print not_set_up w)
       \<and> auto_follow_followers_of_user R rt st name count w = (Inr (), print not_set_up w)
       \<and> auto_unfollow_nonfollowers keep R rt st w = (Inr (), print not_set_up w)
       \<and> auto_mute_following keep R rt st w = (Inr (), print not_set_up w)
       \<and> auto_unmute keep R rt st w = (Inr (), print not_set_up w)
       \<and> files (print not_set_up w) = files w
       \<and> trace (print not_set_up w) = trace w
       \<and> stdout (print not_set_up w) = stdout w @ [not_set_up]"
  using assms
  by (simp add: sync_follows_def get_do_not_follow_list_def get_followers_list_def
      get_follows_list_def load_snapshot_def search_tweets_def auto_fav_def auto_rt_def
      auto_follow_def auto_follow_followers_def auto_follow_followers_of_user_def
      auto_unfollow_nonfollowers_def auto_mute_following_def auto_unmute_def print_def)

theorem unconfigured_no_op_witness:
  "BOT_CONFIG unconfigured_bot = Map.empty
   \<and> sync_follows quiet_remote example_runtime unconfigured_bot (world_with [(''followers.txt'', ''7'')])
       = Some (Inr (), print not_set_up (world_with [(''followers.txt'', ''7'')]))
   \<and> get_followers_list example_runtime unconfigured_bot (world_with [(''followers.txt'', ''7'')])
       = (Inr None, print not_set_up (world_with [(''followers.txt'', ''7'')]))
   \<and> auto_unfollow_nonfollowers [] quiet_remote example_runtime unconfigured_bot
        (world_with [(''followers.txt'', ''7'')])
       = (Inr (), print not_set_up (world_with [(''followers.txt'', ''7'')]))
   \<and> files (print not_set_up (world_with [(''followers.txt'', ''7'')])) ''followers.txt'' = Some ''7''
   \<and> trace (print not_set_up (world_with [(''followers.txt'', ''7'')])) = []"
proof -
  have 1: "BOT_CONFIG unconfigured_bot = Map.empty"
    by (simp add: unconfigured_bot_def)
  have 2: "files (world_with [(''followers.txt'', ''7'')]) ''followers.txt'' = Some ''7''"
    "trace (world_with [(''followers.txt'', ''7'')]) = []"
    by (simp_all add: world_with_def)
  show ?thesis
    using unconfigured_no_op [OF 1, of quiet_remote example_runtime
        "world_with [(''followers.txt'', ''7'')]" _ _ _ _ "[]"] 1 2
    by simp
qed

section \<open>World bookkeeping\<close>

lemma list_ids_ready:
  "connected st \<Longrightarrow> BOT_CONFIG st ''TWITTER_HANDLE'' = Some handle \<Longrightarrow>
   list_ids R st res cursor w =
     (case listing R res (history w) handle cursor of
        Inl e \<Rightarrow> Inl (Remote e) | Inr page \<Rightarrow> Inr page,
      issue (listing_call res handle cursor) w)"
  by (simp add: list_ids_def config_def split: sum.splits)

lemma history_issue [simp]: "history (issue c w) = history w @ [c]"
  by (simp add: history_def issue_def)

lemma history_append_file [simp]: "history (append_file p d w) = history w"
  by (simp add: history_def append_file_def)

lemma history_write_file [simp]: "history (write_file p d w) = history w"
  by (simp add: history_def write_file_def)

lemma history_print [simp]: "history (print s w) = history w"
  by (simp add: history_def print_def)

lemma files_issue [simp]: "files (issue c w) = files w"
  by (simp add: issue_def)

lemma files_print [simp]: "files (print s w) = files w"
  by (simp add: print_def)

lemma files_append_file [simp]:
  "files (append_file p d w) = (files w)(p \<mapsto> (case files w p of None \<Rightarrow> [] | Some old \<Rightarrow> old) @ d)"
  by (simp add: append_file_def)

lemma files_write_file [simp]: "files (write_file p d w) = (files w)(p \<mapsto> d)"
  by (simp add: write_file_def)

text \<open>The loop, from a cursor that the previous page returned, with the file already written.\<close>

lemma sync_pages_run:
  assumes "connected st" "BOT_CONFIG st ''TWITTER_HANDLE'' = Some handle"
    and "BOT_CONFIG st (snapshot_key res) = Some p"
  shows "c \<noteq> 0 \<Longrightarrow> pages_from R res handle (history w) (Some c) pages stop \<Longrightarrow> files w p = Some old \<Longrightarrow>
    \<exists>w'. sync_pages R rt st res c w = Some (raised stop, w')
        \<and> history w' = history w @ map (listing_call res handle)
             (take (length pages + (if stop = None then 0 else 1))
                (Some c # map (\<lambda>page. Some (next_cursor page)) pages))
        \<and> files w' = (files w)(p \<mapsto> old @ page_lines rt pages)"
proof (induction pages arbitrary: c w old)
  case Nil
  then obtain e where e: "stop = Some e" "listing R res (history w) handle (Some c) = Inl e"
    by (auto split: option.splits)
  have "sync_pages R rt st res c w
          = Some (Inl (Remote e), issue (listing_call res handle (Some c)) w)"
    using Nil(1) e by (subst sync_pages.simps) (simp add: list_ids_ready [OF assms(1,2)])
  then show ?case
    using Nil(3) e
    by (intro exI [of _ "issue (listing_call res handle (Some c)) w"])
      (simp add: page_lines_def map_upd_triv)
next
  case (Cons page pages)
  have l: "listing R res (history w) handle (Some c) = Inr page"
    using Cons.prems(2) by simp
  let ?w1 = "append_file p (id_lines (py_set (order rt) (ids page)))
               (issue (listing_call res handle (Some c)) w)"
  have step: "sync_pages R rt st res c w = sync_pages R rt st res (next_cursor page) ?w1"
    using Cons.prems(1) l assms(3)
    by (subst sync_pages.simps) (simp add: list_ids_ready [OF assms(1,2)] config_def)
  have f1: "files ?w1 = (files w)(p \<mapsto> old @ id_lines (py_set (order rt) (ids page)))"
    using Cons.prems(3) by simp
  show ?case
  proof (cases "next_cursor page = 0")
    case True
    then have e: "pages = []" "stop = None" using Cons.prems(2) by simp_all
    have "sync_pages R rt st res 0 ?w1 = Some (Inr (), ?w1)"
      by (subst sync_pages.simps) simp
    then have "sync_pages R rt st res c w = Some (raised stop, ?w1)"
      using True step e by simp
    moreover have "history ?w1 = history w @ [listing_call res handle (Some c)]" by simp
    ultimately show ?thesis
      using Cons.prems(3) e by (intro exI [of _ ?w1]) (simp add: page_lines_def)
  next
    case False
    then have pf: "pages_from R res handle (history ?w1) (Some (next_cursor page)) pages stop"
      using Cons.prems(2) by simp
    have "files ?w1 p = Some (old @ id_lines (py_set (order rt) (ids page)))"
      using f1 by simp
    from Cons.IH [OF False pf this] obtain w' where
      w': "sync_pages R rt st res (next_cursor page) ?w1 = Some (raised stop, w')"
      "history w' = history ?w1 @ map (listing_call res handle)
             (take (length pages + (if stop = None then 0 else 1))
                (Some (next_cursor page) # map (\<lambda>page. Some (next_cursor page)) pages))"
      "files w' = (files ?w1)(p \<mapsto> (old @ id_lines (py_set (order rt) (ids page))) @ page_lines rt pages)"
      by blast
    show ?thesis
      using w' step Cons.prems(3) by (intro exI [of _ w']) (simp add: page_lines_def)
  qed
qed

lemma sync_resource_run:
  assumes "connected st" "BOT_CONFIG st ''TWITTER_HANDLE'' = Some handle"
    and "BOT_CONFIG st (snapshot_key res) = Some p"
    and "pages_from R res handle (history w) None pages stop"
  shows "\<exists>w'. sync_resource R rt st res w = Some (raised stop, w')
        \<and> history w' = history w @ map (listing_call res handle) (cursors_of pages stop)
        \<and> files w' = (if pages = [] then files w else (files w)(p \<mapsto> page_lines rt pages))"
proof (cases pages)
  case Nil
  then obtain e where e: "stop = Some e" "listing R res (history w) handle None = Inl e"
    using assms(4) by (auto split: option.splits)
  show ?thesis
    using Nil e
    by (intro exI [of _ "issue (listing_call res handle None) w"])
      (simp add: sync_resource_def list_ids_ready [OF assms(1,2)] cursors_of_def)
next
  case (Cons page rest)
  have l: "listing R res (history w) handle None = Inr page"
    using assms(4) Cons by simp
  let ?w1 = "write_file p (id_lines (py_set (order rt) (ids page)))
               (issue (listing_call res handle None) w)"
  have step: "sync_resource R rt st res w = sync_pages R rt st res (next_cursor page) ?w1"
    using l assms(3)
    by (simp add: sync_resource_def list_ids_ready [OF assms(1,2)] config_def)
  show ?thesis
  proof (cases "next_cursor page = 0")
    case True
    then have e: "rest = []" "stop = None" using assms(4) Cons by simp_all
    have "sync_pages R rt st res 0 ?w1 = Some (Inr (), ?w1)"
      by (subst sync_pages.simps) simp
    then have "sync_resource R rt st res w = Some (raised stop, ?w1)"
      using True step e by simp
    moreover have "history ?w1 = history w @ [listing_call res handle None]" by simp
    moreover have "files ?w1 = (files w)(p \<mapsto> id_lines (py_set (order rt) (ids page)))" by simp
    ultimately show ?thesis
      using e Cons by (intro exI [of _ ?w1]) (simp add: page_lines_def cursors_of_def)
  next
    case False
    then have pf: "pages_from R res handle (history ?w1) (Some (next_cursor page)) rest stop"
      using assms(4) Cons by simp
    have "files ?w1 p = Some (id_lines (py_set (order rt) (ids page)))" by simp
    from sync_pages_run [OF assms(1,2,3) False pf this, of rt] obtain w' where
      w': "sync_pages R rt st res (next_cursor page) ?w1 = Some (raised stop, w')"
      "history w' = history ?w1 @ map (listing_call res handle)
             (take (length rest + (if stop = None then 0 else 1))
                (Some (next_cursor page) # map (\<lambda>page. Some (next_cursor page)) rest))"
      "files w' = (files ?w1)(p \<mapsto> id_lines (py_set (order rt) (ids page)) @ page_lines rt rest)"
      by blast
    show ?thesis
      using w' step Cons by (intro exI [of _ w']) (simp add: page_lines_def cursors_of_def)
  qed
qed

lemma page_lines_id_lines:
  "page_lines rt pages = id_lines (concat (map (\<lambda>page. py_set (order rt) (ids page)) pages))"
  by (induction pages) (simp_all add: page_lines_def id_lines_def)

lemma take_length_map_Cons: "take (length xs) (f a # map f xs) = map f (butlast (a # xs))"
  by (induction xs arbitrary: a) auto

lemma cursors_of_complete:
  "pages \<noteq> [] \<Longrightarrow> cursors_of pages None = None # map (\<lambda>page. Some (next_cursor page)) (butlast pages)"
proof -
  assume "pages \<noteq> []"
  then obtain a list where p: "pages = a # list" by (cases pages) auto
  show ?thesis
    using take_length_map_Cons [of list "\<lambda>page. Some (next_cursor page)" a]
    by (simp add: cursors_of_def p del: butlast.simps)
qed

section \<open>The pager\<close>

text \<open>
  Claim C5. When the remote answers the listing calls for a resource with the pages
  \<open>pages\<close> in turn, the last of them (and only the last) with next cursor 0, the bot calls
  the endpoint once per page: first without a cursor, then with the cursor each page
  returned. Afterwards the snapshot of the resource loads as the union of the identifiers
  of all the pages. For the cursor sequence 5, 9, 0 these are three calls.
\<close>

theorem pager_follows_cursors:
  assumes "set_order_ok (order rt)" and "connected st"
    and "BOT_CONFIG st ''TWITTER_HANDLE'' = Some handle"
    and "BOT_CONFIG st (snapshot_key res) = Some p"
    and "pages_from R res handle (history w) None pages None"
  shows "\<exists>w' s. sync_resource R rt st res w = Some (Inr (), w')
           \<and> history w' = history w @ map (listing_call res handle)
                (None # map (\<lambda>page. Some (next_cursor page)) (butlast pages))
           \<and> length (None # map (\<lambda>page. Some (next_cursor page)) (butlast pages)) = length pages
           \<and> load_snapshot rt st (snapshot_key res) w' = (Inr (Some s), w')
           \<and> set s = (\<Union>page \<in> set pages. set (ids page))"
proof -
  have ne: "pages \<noteq> []" using assms(5) by auto
  from sync_resource_run [OF assms(2,3,4,5), of rt] obtain w' where
    w': "sync_resource R rt st res w = Some (Inr (), w')"
    "history w' = history w @ map (listing_call res handle) (cursors_of pages None)"
    "files w' = (files w)(p \<mapsto> page_lines rt pages)"
    using ne by auto
  let ?xs = "concat (map (\<lambda>page. py_set (order rt) (ids page)) pages)"
  have "files w' p = Some (id_lines ?xs)"
    using w'(3) by (simp add: page_lines_id_lines)
  then have "read_ids w' p = Inr ?xs" by (rule read_ids_written)
  then have l: "load_snapshot rt st (snapshot_key res) w' = (Inr (Some (py_set (order rt) ?xs)), w')"
    by (rule load_snapshot_ready [OF assms(4)])
  have "set (py_set (order rt) ?xs) = (\<Union>page \<in> set pages. set (ids page))"
    using py_set_ok [OF assms(1)] by simp
  then show ?thesis
    using w'(1,2) l ne by (simp add: cursors_of_complete)
qed

theorem pager_follows_cursors_witness:
  "set_order_ok (order example_runtime) \<and> connected example_bot
   \<and> BOT_CONFIG example_bot ''TWITTER_HANDLE'' = Some ''me''
   \<and> BOT_CONFIG example_bot (snapshot_key Followers) = Some ''followers.txt''
   \<and> map next_cursor [\<lparr>ids = [1, 2], next_cursor = 5\<rparr>, \<lparr>ids = [3], next_cursor = 9\<rparr>,
                       \<lparr>ids = [2, 4], next_cursor = 0\<rparr>] = [5, 9, 0]
   \<and> pages_from three_page_remote Followers ''me'' (history (world_with [])) None
        [\<lparr>ids = [1, 2], next_cursor = 5\<rparr>, \<lparr>ids = [3], next_cursor = 9\<rparr>,
         \<lparr>ids = [2, 4], next_cursor = 0\<rparr>] None
   \<and> (\<exists>w' s. sync_resource three_page_remote example_runtime example_bot Followers (world_with [])
                 = Some (Inr (), w')
             \<and> history w' = [FollowersIds ''me'' None, FollowersIds ''me'' (Some 5),
                              FollowersIds ''me'' (Some 9)]
             \<and> get_followers_list example_runtime example_bot w' = (Inr (Some s), w')
             \<and> set s = {1, 2, 3, 4})"
proof -
  have 1: "set_order_ok (order example_runtime)"
    by (simp add: example_runtime_def insertion_order_ok)
  have 2: "connected example_bot"
    by (simp add: connected_def example_bot_def)
  have 3: "BOT_CONFIG example_bot ''TWITTER_HANDLE'' = Some ''me''"
    by (simp add: example_bot_def example_config_def)
  have 4: "BOT_CONFIG example_bot (snapshot_key Followers) = Some ''followers.txt''"
    by (simp add: example_bot_def example_config_def)
  have 5: "pages_from three_page_remote Followers ''me'' (history (world_with [])) None
        [\<lparr>ids = [1, 2], next_cursor = 5\<rparr>, \<lparr>ids = [3], next_cursor = 9\<rparr>,
         \<lparr>ids = [2, 4], next_cursor = 0\<rparr>] None"
    by (simp add: three_page_remote_def)
  have 6: "history (world_with []) = []"
    by (simp add: history_def world_with_def)
  from pager_follows_cursors [OF 1 2 3 4 5] obtain w' s where
    r: "sync_resource three_page_remote example_runtime example_bot Followers (world_with [])
          = Some (Inr (), w')"
    "history w' = [FollowersIds ''me'' None, FollowersIds ''me'' (Some 5),
                   FollowersIds ''me'' (Some 9)]"
    "get_followers_list example_runtime example_bot w' = (Inr (Some s), w')"
    "set s = (\<Union>page \<in> {\<lparr>ids = [1, 2], next_cursor = 5\<rparr>, \<lparr>ids = [3], next_cursor = 9\<rparr>,
                             \<lparr>ids = [2, 4], next_cursor = 0\<rparr>}. set (ids page))"
    by (auto simp: 6 get_followers_list_def)
  have "set s = {1, 2, 3, 4}" unfolding r(4) by auto
  with r(1,2,3) have "\<exists>w' s. sync_resource three_page_remote example_runtime example_bot Followers
                 (world_with []) = Some (Inr (), w')
             \<and> history w' = [FollowersIds ''me'' None, FollowersIds ''me'' (Some 5),
                              FollowersIds ''me'' (Some 9)]
             \<and> get_followers_list example_runtime example_bot w' = (Inr (Some s), w')
             \<and> set s = {1, 2, 3, 4}"
    by blast
  then show ?thesis
    using 1 2 3 4 5 by simp
qed

section \<open>Runs of \<open>sync_follows\<close>\<close>

lemma world_with_simps [simp]:
  "files (world_with fs) = map_of fs" "history (world_with fs) = []" "trace (world_with fs) = []"
  "stdout (world_with fs) = []"
  by (simp_all add: world_with_def history_def)

lemma example_bot_simps [simp]:
  "connected example_bot"
  "BOT_CONFIG example_bot ''TWITTER_HANDLE'' = Some ''me''"
  "BOT_CONFIG example_bot ''FOLLOWERS_FILE'' = Some ''followers.txt''"
  "BOT_CONFIG example_bot ''FOLLOWS_FILE'' = Some ''following.txt''"
  "BOT_CONFIG example_bot ''ALREADY_FOLLOWED_FILE'' = Some ''already.txt''"
  "BOT_CONFIG example_bot \<noteq> Map.empty"
  by (simp_all add: connected_def example_bot_def example_config_def)

lemma example_runtime_simps [simp]:
  "set_order_ok (order example_runtime)"
  "order example_runtime = insertion_order"
  by (simp_all add: example_runtime_def insertion_order_ok)

lemma sync_pages_pages:
  assumes "sync_pages R rt st res c w = Some y"
  shows "connected st \<longrightarrow> BOT_CONFIG st ''TWITTER_HANDLE'' = Some handle
           \<longrightarrow> BOT_CONFIG st (snapshot_key res) = Some p \<longrightarrow> c \<noteq> 0
           \<longrightarrow> (\<exists>pages stop. pages_from R res handle (history w) (Some c) pages stop)"
proof (rule sync_pages.raw_induct [OF _ assms, where P = "\<lambda>R rt st res c w y.
          connected st \<longrightarrow> BOT_CONFIG st ''TWITTER_HANDLE'' = Some handle
           \<longrightarrow> BOT_CONFIG st (snapshot_key res) = Some p \<longrightarrow> c \<noteq> 0
           \<longrightarrow> (\<exists>pages stop. pages_from R res handle (history w) (Some c) pages stop)"])
  fix f R rt st res cursor w y
  assume IH: "\<And>R rt st res cursor w y. f R rt st res cursor w = Some y \<Longrightarrow>
          connected st \<longrightarrow> BOT_CONFIG st ''TWITTER_HANDLE'' = Some handle
           \<longrightarrow> BOT_CONFIG st (snapshot_key res) = Some p \<longrightarrow> cursor \<noteq> 0
           \<longrightarrow> (\<exists>pages stop. pages_from R res handle (history w) (Some cursor) pages stop)"
    and body: "(if cursor = 0 then Some (Inr (), w)
      else case list_ids R st res (Some cursor) w of
           (Inl e, w1) \<Rightarrow> Some (Inl e, w1)
           | (Inr page, w1) \<Rightarrow>
               case config st (snapshot_key res) of Inl e \<Rightarrow> Some (Inl e, w1)
               | Inr p \<Rightarrow>
                   f R rt st res (next_cursor page)
                    (append_file p (id_lines (py_set (order rt) (ids page))) w1)) = Some y"
  show "connected st \<longrightarrow> BOT_CONFIG st ''TWITTER_HANDLE'' = Some handle
           \<longrightarrow> BOT_CONFIG st (snapshot_key res) = Some p \<longrightarrow> cursor \<noteq> 0
           \<longrightarrow> (\<exists>pages stop. pages_from R res handle (history w) (Some cursor) pages stop)"
  proof (intro impI)
    assume a: "connected st" "BOT_CONFIG st ''TWITTER_HANDLE'' = Some handle"
      "BOT_CONFIG st (snapshot_key res) = Some p" "cursor \<noteq> 0"
    show "\<exists>pages stop. pages_from R res handle (history w) (Some cursor) pages stop"
    proof (cases "listing R res (history w) handle (Some cursor)")
      case (Inl e)
      then have "pages_from R res handle (history w) (Some cursor) [] (Some e)" by simp
      then show ?thesis by blast
    next
      case (Inr page)
      show ?thesis
      proof (cases "next_cursor page = 0")
        case True
        with Inr have "pages_from R res handle (history w) (Some cursor) [page] None" by simp
        then show ?thesis by blast
      next
        case False
        let ?w1 = "append_file p (id_lines (py_set (order rt) (ids page)))
                     (issue (listing_call res handle (Some cursor)) w)"
        have run: "f R rt st res (next_cursor page) ?w1 = Some y"
          using body a Inr by (simp add: list_ids_ready [OF a(1,2)] config_def)
        from IH [OF run] a False obtain pages stop where
          "pages_from R res handle (history ?w1) (Some (next_cursor page)) pages stop"
          by blast
        with Inr False
        have "pages_from R res handle (history w) (Some cursor) (page # pages) stop" by simp
        then show ?thesis by blast
      qed
    qed
  qed
qed

lemma sync_resource_pages:
  assumes "connected st" "BOT_CONFIG st ''TWITTER_HANDLE'' = Some handle"
    and "BOT_CONFIG st (snapshot_key res) = Some p"
    and "sync_resource R rt st res w = Some y"
  shows "\<exists>pages stop. pages_from R res handle (history w) None pages stop"
proof (cases "listing R res (history w) handle None")
  case (Inl e)
  then have "pages_from R res handle (history w) None [] (Some e)" by simp
  then show ?thesis by blast
next
  case (Inr page)
  show ?thesis
  proof (cases "next_cursor page = 0")
    case True
    with Inr have "pages_from R res handle (history w) None [page] None" by simp
    then show ?thesis by blast
  next
    case False
    let ?w1 = "write_file p (id_lines (py_set (order rt) (ids page)))
                 (issue (listing_call res handle None) w)"
    have "sync_pages R rt st res (next_cursor page) ?w1 = Some y"
      using assms(3,4) Inr
      by (simp add: sync_resource_def list_ids_ready [OF assms(1,2)] config_def)
    from sync_pages_pages [OF this, of handle p] assms(1,2,3) False obtain pages stop where
      "pages_from R res handle (history ?w1) (Some (next_cursor page)) pages stop"
      by blast
    with Inr False have "pages_from R res handle (history w) None (page # pages) stop" by simp
    then show ?thesis by blast
  qed
qed

lemma fixed_listing: "fixed_listings R \<Longrightarrow> listing R res h name c = listing R res h' name c"
  by (cases res) (auto simp: fixed_listings_def)

lemma pages_from_fixed:
  "fixed_listings R \<Longrightarrow> pages_from R res handle h c pages stop \<Longrightarrow>
     pages_from R res handle h' c pages stop"
proof (induction pages arbitrary: h h' c)
  case Nil
  then show ?case
    using fixed_listing [of R res h handle c h'] by (auto split: option.splits)
next
  case (Cons page pages)
  then show ?case
    using fixed_listing [of R res h handle c h'] by (auto split: if_splits)
qed

lemma sync_follows_run:
  assumes "connected st" "BOT_CONFIG st ''TWITTER_HANDLE'' = Some handle"
    and "BOT_CONFIG st ''FOLLOWERS_FILE'' = Some pw" "BOT_CONFIG st ''FOLLOWS_FILE'' = Some pf"
    and "pages_from R Followers handle (history w) None fpages fstop"
    and "fstop = None \<longrightarrow>
           pages_from R Friends handle
             (history w @ map (FollowersIds handle) (cursors_of fpages None)) None gpages gstop"
  shows "\<exists>w'. sync_follows R rt st w
                = Some (if fstop = None then raised gstop else raised fstop, w')
          \<and> files w' =
              (if fstop = None
               then (if gpages = [] then (files w)(pw \<mapsto> page_lines rt fpages)
                     else (files w)(pw \<mapsto> page_lines rt fpages, pf \<mapsto> page_lines rt gpages))
               else (if fpages = [] then files w else (files w)(pw \<mapsto> page_lines rt fpages)))"
proof -
  have ne: "BOT_CONFIG st \<noteq> Map.empty" using assms(2) by auto
  have kw: "BOT_CONFIG st (snapshot_key Followers) = Some pw" using assms(3) by simp
  have kf: "BOT_CONFIG st (snapshot_key Friends) = Some pf" using assms(4) by simp
  from sync_resource_run [OF assms(1,2) kw assms(5), of rt] obtain w1 where
    w1: "sync_resource R rt st Followers w = Some (raised fstop, w1)"
    "history w1 = history w @ map (FollowersIds handle) (cursors_of fpages fstop)"
    "files w1 = (if fpages = [] then files w else (files w)(pw \<mapsto> page_lines rt fpages))"
    by auto
  show ?thesis
  proof (cases fstop)
    case (Some e)
    then show ?thesis
      using w1 ne by (intro exI [of _ w1]) (simp add: sync_follows_def)
  next
    case None
    then have fne: "fpages \<noteq> []" using assms(5) by auto
    have "pages_from R Friends handle (history w1) None gpages gstop"
      using assms(6) None w1(2) by simp
    from sync_resource_run [OF assms(1,2) kf this, of rt] obtain w2 where
      w2: "sync_resource R rt st Friends w1 = Some (raised gstop, w2)"
      "files w2 = (if gpages = [] then files w1 else (files w1)(pf \<mapsto> page_lines rt gpages))"
      by auto
    show ?thesis
      using w1 w2 ne None fne by (intro exI [of _ w2]) (simp add: sync_follows_def)
  qed
qed

lemma fixed_listings_three_page_remote: "fixed_listings three_page_remote"
  by (simp add: fixed_listings_def three_page_remote_def quiet_remote_def)

lemma page_lines_example:
  "page_lines example_runtime [\<lparr>ids = [1, 2], next_cursor = 0\<rparr>]
     = [CHR ''1'', newline, CHR ''2'', newline]"
  by code_simp

section \<open>Running the synchronisation twice\<close>

text \<open>
  Claim C6. For a bot that is set up and a remote whose listing answers are fixed, if
  \<open>sync_follows\<close> terminates, then running it again from the world it left terminates
  with the same result and leaves every file, so the followers and follows snapshots,
  with the same bytes.
\<close>

theorem sync_idempotent:
  assumes "connected st" and "BOT_CONFIG st ''TWITTER_HANDLE'' = Some handle"
    and "BOT_CONFIG st ''FOLLOWERS_FILE'' = Some pw" and "BOT_CONFIG st ''FOLLOWS_FILE'' = Some pf"
    and "fixed_listings R"
    and "sync_follows R rt st w = Some (r, w1)"
  shows "\<exists>w2. sync_follows R rt st w1 = Some (r, w2) \<and> files w2 = files w1"
proof -
  have ne: "BOT_CONFIG st \<noteq> Map.empty" using assms(2) by auto
  have kw: "BOT_CONFIG st (snapshot_key Followers) = Some pw" using assms(3) by simp
  have kf: "BOT_CONFIG st (snapshot_key Friends) = Some pf" using assms(4) by simp
  obtain y where y: "sync_resource R rt st Followers w = Some y"
    using assms(6) ne by (cases "sync_resource R rt st Followers w") (auto simp: sync_follows_def)
  from sync_resource_pages [OF assms(1,2) kw y] obtain fpages fstop where
    fp: "pages_from R Followers handle (history w) None fpages fstop" by blast
  from sync_resource_run [OF assms(1,2) kw fp, of rt] y obtain wf where
    wf: "sync_resource R rt st Followers w = Some (raised fstop, wf)" by auto
  have "\<exists>gpages gstop. fstop = None \<longrightarrow>
          pages_from R Friends handle (history w) None gpages gstop"
  proof (cases fstop)
    case None
    then have "sync_resource R rt st Friends wf = Some (r, w1)"
      using assms(6) ne wf by (simp add: sync_follows_def)
    from sync_resource_pages [OF assms(1,2) kf this] obtain gpages gstop where
      "pages_from R Friends handle (history wf) None gpages gstop" by blast
    then have "pages_from R Friends handle (history w) None gpages gstop"
      by (rule pages_from_fixed [OF assms(5)])
    then show ?thesis by blast
  next
    case (Some e)
    then show ?thesis by simp
  qed
  then obtain gpages gstop where
    gp: "fstop = None \<longrightarrow> pages_from R Friends handle (history w) None gpages gstop" by blast
  let ?F = "\<lambda>fs. if fstop = None
               then (if gpages = [] then fs(pw \<mapsto> page_lines rt fpages)
                     else fs(pw \<mapsto> page_lines rt fpages, pf \<mapsto> page_lines rt gpages))
               else (if fpages = [] then fs else fs(pw \<mapsto> page_lines rt fpages))"
  let ?r = "if fstop = None then raised gstop else raised fstop"
  have run: "\<exists>u'. sync_follows R rt st u = Some (?r, u') \<and> files u' = ?F (files u)" for u
  proof -
    have 1: "pages_from R Followers handle (history u) None fpages fstop"
      using fp by (rule pages_from_fixed [OF assms(5)])
    have 2: "fstop = None \<longrightarrow>
           pages_from R Friends handle
             (history u @ map (FollowersIds handle) (cursors_of fpages None)) None gpages gstop"
      using gp pages_from_fixed [OF assms(5)] by blast
    show ?thesis
      using sync_follows_run [OF assms(1,2,3,4) 1 2, of rt] by simp
  qed
  from run [of w] assms(6) have first: "r = ?r" "files w1 = ?F (files w)" by auto
  from run [of w1] obtain w2 where
    w2: "sync_follows R rt st w1 = Some (?r, w2)" "files w2 = ?F (files w1)" by blast
  have "?F (?F (files w)) = ?F (files w)"
    by (rule ext) simp
  then have "files w2 = files w1" using first(2) w2(2) by simp
  then show ?thesis using w2(1) first(1) by simp
qed

theorem sync_idempotent_witness:
  "connected example_bot \<and> BOT_CONFIG example_bot ''TWITTER_HANDLE'' = Some ''me''
   \<and> BOT_CONFIG example_bot ''FOLLOWERS_FILE'' = Some ''followers.txt''
   \<and> BOT_CONFIG example_bot ''FOLLOWS_FILE'' = Some ''following.txt''
   \<and> fixed_listings three_page_remote
   \<and> (\<exists>r w1 w2.
         sync_follows three_page_remote example_runtime example_bot (world_with []) = Some (r, w1)
         \<and> sync_follows three_page_remote example_runtime example_bot w1 = Some (r, w2)
         \<and> files w2 = files w1)"
proof -
  have 1: "pages_from three_page_remote Followers ''me'' (history (world_with [])) None
        [\<lparr>ids = [1, 2], next_cursor = 5\<rparr>, \<lparr>ids = [3], next_cursor = 9\<rparr>,
         \<lparr>ids = [2, 4], next_cursor = 0\<rparr>] None"
    by (simp add: three_page_remote_def)
  have 2: "None = None \<longrightarrow> pages_from three_page_remote Friends ''me''
        (history (world_with []) @ map (FollowersIds ''me'')
           (cursors_of [\<lparr>ids = [1, 2], next_cursor = 5\<rparr>, \<lparr>ids = [3], next_cursor = 9\<rparr>,
                        \<lparr>ids = [2, 4], next_cursor = 0\<rparr>] None))
        None [\<lparr>ids = [], next_cursor = 0\<rparr>] None"
    by (simp add: three_page_remote_def quiet_remote_def)
  from sync_follows_run [OF example_bot_simps(1,2,3,4) 1 2, of example_runtime]
  obtain r w1 where
    run: "sync_follows three_page_remote example_runtime example_bot (world_with []) = Some (r, w1)"
    by blast
  from sync_idempotent [OF example_bot_simps(1,2,3,4) fixed_listings_three_page_remote run]
  obtain w2 where
    "sync_follows three_page_remote example_runtime example_bot w1 = Some (r, w2)"
    "files w2 = files w1"
    by blast
  with run have "\<exists>r w1 w2.
         sync_follows three_page_remote example_runtime example_bot (world_with []) = Some (r, w1)
         \<and> sync_follows three_page_remote example_runtime example_bot w1 = Some (r, w2)
         \<and> files w2 = files w1"
    by blast
  then show ?thesis
    using fixed_listings_three_page_remote by simp
qed

section \<open>A failure while listing the accounts followed\<close>

text \<open>
  Claim C10, as stated, fails when the failing call is not the first one for the follows
  resource: the follows file was overwritten with the first page before the call for the
  second page raised.
\<close>

theorem sync_later_page_failure:
  "(case sync_follows failing_friends_remote example_runtime example_bot
           (world_with [(''following.txt'', [CHR ''9'', newline])]) of
      Some (Inl (Remote e), w') \<Rightarrow>
        files (world_with [(''following.txt'', [CHR ''9'', newline])]) ''following.txt''
          = Some [CHR ''9'', newline]
        \<and> files w' ''following.txt'' = Some []
        \<and> history w' = [FollowersIds ''me'' None, FriendsIds ''me'' None, FriendsIds ''me'' (Some 5)]
    | _ \<Rightarrow> False)"
  by (simp add: sync_follows_def sync_resource_def sync_pages.simps list_ids_def config_def
      connected_def example_bot_def example_config_def failing_friends_remote_def quiet_remote_def
      example_runtime_def insertion_order_def py_set_def id_lines_def)

text \<open>
  Claim C10, amended. \<open>sync_follows\<close> is not atomic across roles. When all pages of the
  followers were fetched and a listing call for the follows raises a remote error, the
  error propagates to the caller and the followers file holds the lines of all fetched
  pages. The follows file, when it is a different file, still holds its prior content if
  the failing call was the first one (the one without a cursor); if a later call failed,
  it holds the lines of the follows pages fetched before the failure.
\<close>

theorem sync_not_atomic:
  assumes "connected st" and "BOT_CONFIG st ''TWITTER_HANDLE'' = Some handle"
    and "BOT_CONFIG st ''FOLLOWERS_FILE'' = Some pw" and "BOT_CONFIG st ''FOLLOWS_FILE'' = Some pf"
    and "pw \<noteq> pf"
    and "pages_from R Followers handle (history w) None fpages None"
    and "pages_from R Friends handle
           (history w @ map (FollowersIds handle) (cursors_of fpages None)) None gpages (Some e)"
  shows "\<exists>w'. sync_follows R rt st w = Some (Inl (Remote e), w')
           \<and> files w' pw = Some (page_lines rt fpages)
           \<and> files w' pf = (if gpages = [] then files w pf else Some (page_lines rt gpages))"
  using sync_follows_run [OF assms(1,2,3,4,6), of gpages "Some e" rt] assms(5,7)
  by auto

theorem sync_not_atomic_witness:
  "connected example_bot \<and> BOT_CONFIG example_bot ''TWITTER_HANDLE'' = Some ''me''
   \<and> BOT_CONFIG example_bot ''FOLLOWERS_FILE'' = Some ''followers.txt''
   \<and> BOT_CONFIG example_bot ''FOLLOWS_FILE'' = Some ''following.txt''
   \<and> ''followers.txt'' \<noteq> ''following.txt''
   \<and> pages_from friends_down_remote Followers ''me''
        (history (world_with [(''followers.txt'', [CHR ''7'', newline]),
                              (''following.txt'', [CHR ''9'', newline])]))
        None [\<lparr>ids = [1, 2], next_cursor = 0\<rparr>] None
   \<and> pages_from friends_down_remote Friends ''me''
        (history (world_with [(''followers.txt'', [CHR ''7'', newline]),
                              (''following.txt'', [CHR ''9'', newline])])
           @ map (FollowersIds ''me'') (cursors_of [\<lparr>ids = [1, 2], next_cursor = 0\<rparr>] None))
        None [] (Some (TwitterHTTPError ''Over capacity''))
   \<and> (\<exists>w'. sync_follows friends_down_remote example_runtime example_bot
               (world_with [(''followers.txt'', [CHR ''7'', newline]),
                            (''following.txt'', [CHR ''9'', newline])])
             = Some (Inl (Remote (TwitterHTTPError ''Over capacity'')), w')
           \<and> files w' ''followers.txt'' = Some [CHR ''1'', newline, CHR ''2'', newline]
           \<and> files w' ''following.txt'' = Some [CHR ''9'', newline])"
proof -
  let ?w = "world_with [(''followers.txt'', [CHR ''7'', newline]),
                        (''following.txt'', [CHR ''9'', newline])]"
  have 5: "''followers.txt'' \<noteq> ''following.txt''" by simp
  have 6: "pages_from friends_down_remote Followers ''me'' (history ?w)
        None [\<lparr>ids = [1, 2], next_cursor = 0\<rparr>] None"
    by (simp add: friends_down_remote_def)
  have 7: "pages_from friends_down_remote Friends ''me''
        (history ?w @ map (FollowersIds ''me'') (cursors_of [\<lparr>ids = [1, 2], next_cursor = 0\<rparr>] None))
        None [] (Some (TwitterHTTPError ''Over capacity''))"
    by (simp add: friends_down_remote_def)
  show ?thesis
    using sync_not_atomic [OF example_bot_simps(1,2,3,4) 5 6 7, of example_runtime] 6 7
    by (simp add: page_lines_example)
qed

section \<open>The loops of the bulk operations\<close>

lemma py_difference_ok:
  "set_order_ok ord \<Longrightarrow>
     distinct (py_difference ord a b) \<and> set (py_difference ord a b) = set a - set b"
  by (auto simp: set_order_ok_def py_difference_def)

lemma py_update_ok:
  "set_order_ok ord \<Longrightarrow>
     distinct (py_update ord a b) \<and> set (py_update ord a b) = set a \<union> set b"
  by (auto simp: set_order_ok_def py_update_def)

lemma load_snapshot_Some:
  assumes "fst (load_snapshot rt st key w) = Inr (Some s)"
  shows "BOT_CONFIG st \<noteq> Map.empty \<and> load_snapshot rt st key w = (Inr (Some s), w)
       \<and> (\<exists>p xs. BOT_CONFIG st key = Some p \<and> read_ids w p = Inr xs \<and> s = py_set (order rt) xs)"
  using assms
  by (auto simp: load_snapshot_def config_def split: if_splits option.splits sum.splits)

lemma auto_follow_followers_loop_calls:
  "connected st \<Longrightarrow>
     \<exists>w'. auto_follow_followers_loop R st us w = (Inr (), w')
        \<and> history w' = history w @ map FriendshipsCreate us \<and> files w' = files w"
proof (induction us arbitrary: w)
  case Nil
  show ?case by simp
next
  case (Cons u us)
  show ?case
  proof (cases "friendships_create R (history w) u")
    case (Inl e)
    from Cons.IH [OF Cons.prems,
        of "print (''error: '' @ str_remote e) (issue (FriendshipsCreate u) w)"]
    show ?thesis using Cons.prems Inl by auto
  next
    case (Inr r)
    from Cons.IH [OF Cons.prems, of "issue (FriendshipsCreate u) w"]
    show ?thesis using Cons.prems Inr by auto
  qed
qed

lemma trace_issue [simp]: "trace (issue c w) = trace w @ [(c, files w)]"
  by (simp add: issue_def)

lemma trace_print [simp]: "trace (print s w) = trace w"
  by (simp add: print_def)

lemma trace_write_file [simp]: "trace (write_file p d w) = trace w"
  by (simp add: write_file_def)

lemma mutate_each_trace:
  "connected st \<Longrightarrow>
     \<exists>r w' done rest. mutate_each endpoint mk said st keep us w = (r, w')
        \<and> trace w' = trace w @ map (\<lambda>u. (mk u, files w)) done
        \<and> files w' = files w
        \<and> filter (\<lambda>u. u \<notin> set keep) us = done @ rest
        \<and> ((\<forall>h u. endpoint h u = Inr ()) \<longrightarrow> r = Inr () \<and> rest = [])"
proof (induction us arbitrary: w)
  case Nil
  show ?case by simp
next
  case (Cons u us)
  show ?case
  proof (cases "u \<in> set keep")
    case True
    from Cons.IH [OF Cons.prems, of w] show ?thesis using True by simp
  next
    case False
    show ?thesis
    proof (cases "endpoint (history w) u")
      case (Inl e)
      have "mutate_each endpoint mk said st keep (u # us) w = (Inl (Remote e), issue (mk u) w)"
        using False Inl Cons.prems by simp
      moreover have "trace (issue (mk u) w) = trace w @ map (\<lambda>u. (mk u, files w)) [u]" by simp
      moreover have "filter (\<lambda>u. u \<notin> set keep) (u # us) = [u] @ filter (\<lambda>u. u \<notin> set keep) us"
        using False by simp
      moreover have "\<not> (\<forall>h u. endpoint h u = Inr ())" using Inl by (metis sum.distinct(1))
      ultimately show ?thesis
        by (metis files_issue)
    next
      case (Inr r)
      let ?w1 = "print (said @ str_int u) (issue (mk u) w)"
      from Cons.IH [OF Cons.prems, of ?w1] obtain r' w' d rest where
        IH: "mutate_each endpoint mk said st keep us ?w1 = (r', w')"
        "trace w' = trace ?w1 @ map (\<lambda>u. (mk u, files ?w1)) d"
        "files w' = files ?w1"
        "filter (\<lambda>u. u \<notin> set keep) us = d @ rest"
        "(\<forall>h u. endpoint h u = Inr ()) \<longrightarrow> r' = Inr () \<and> rest = []"
        by blast
      have "mutate_each endpoint mk said st keep (u # us) w = (r', w')"
        using False Inr Cons.prems IH(1) by simp
      moreover have "trace w' = trace w @ map (\<lambda>u. (mk u, files w)) (u # d)"
        using IH(2) by simp
      moreover have "files w' = files w" using IH(3) by simp
      moreover have "filter (\<lambda>u. u \<notin> set keep) (u # us) = (u # d) @ rest"
        using False IH(4) by simp
      ultimately show ?thesis using IH(5) by blast
    qed
  qed
qed

lemma distinct_singleton: "distinct us \<Longrightarrow> set us = {x} \<Longrightarrow> us = [x]"
proof (cases us)
  case Nil
  assume "set us = {x}"
  with Nil show ?thesis by simp
next
  case (Cons a list)
  assume "distinct us" "set us = {x}"
  with Cons have "a = x" "set list \<subseteq> {x}" "x \<notin> set list" by auto
  then have "list = []" by (cases list) auto
  with Cons \<open>a = x\<close> show ?thesis by simp
qed

lemma read_example_files:
  "read_ids followers_123_following_2345 ''followers.txt'' = Inr [1, 2, 3]"
  "read_ids followers_123_following_2345 ''following.txt'' = Inr [2, 3, 4, 5]"
  "read_ids followers_123_following_2345 ''already.txt'' = Inr [9]"
  by code_simp+

lemma load_example_files:
  "fst (get_followers_list example_runtime example_bot followers_123_following_2345)
     = Inr (Some [1, 2, 3])"
  "fst (get_follows_list example_runtime example_bot followers_123_following_2345)
     = Inr (Some [2, 3, 4, 5])"
  "fst (get_do_not_follow_list example_runtime example_bot followers_123_following_2345)
     = Inr (Some [9])"
  by (simp_all add: get_followers_list_def get_follows_list_def get_do_not_follow_list_def
      load_snapshot_ready [OF _ read_example_files(1)] load_snapshot_ready [OF _ read_example_files(2)]
      load_snapshot_ready [OF _ read_example_files(3)] py_set_def insertion_order_def)

lemma read_claim_files:
  "read_ids followers_123_following_234 ''followers.txt'' = Inr [1, 2, 3]"
  "read_ids followers_123_following_234 ''following.txt'' = Inr [2, 3, 4]"
  by code_simp+

lemma load_claim_files:
  "fst (get_followers_list example_runtime example_bot followers_123_following_234)
     = Inr (Some [1, 2, 3])"
  "fst (get_follows_list example_runtime example_bot followers_123_following_234)
     = Inr (Some [2, 3, 4])"
  by (simp_all add: get_followers_list_def get_follows_list_def
      load_snapshot_ready [OF _ read_claim_files(1)] load_snapshot_ready [OF _ read_claim_files(2)]
      py_set_def insertion_order_def)

lemma history_claim_files [simp]: "history followers_123_following_234 = []"
  by (simp add: followers_123_following_234_def)

lemma history_example [simp]: "history followers_123_following_2345 = []"
  by (simp add: followers_123_following_2345_def)

lemma auto_follow_followers_of_user_loop_calls:
  "connected st \<Longrightarrow> \<forall>h u m. friendships_create R h u \<noteq> Inl (OtherRemoteError m) \<Longrightarrow>
     \<exists>w'. auto_follow_followers_of_user_loop R st fg dnf us w = (Inr (), w')
        \<and> history w' = history w
             @ map FriendshipsCreate (filter (\<lambda>u. u \<notin> set fg \<and> u \<notin> set dnf) us)"
proof (induction us arbitrary: w)
  case Nil
  show ?case by simp
next
  case (Cons u us)
  show ?case
  proof (cases "u \<notin> set fg \<and> u \<notin> set dnf")
    case False
    from Cons.IH [OF Cons.prems, of w] show ?thesis using False by auto
  next
    case True
    show ?thesis
    proof (cases "friendships_create R (history w) u")
      case (Inr r)
      from Cons.IH [OF Cons.prems, of "print (''followed '' @ str_int u) (issue (FriendshipsCreate u) w)"]
      show ?thesis using True Inr Cons.prems(1) by auto
    next
      case (Inl e)
      then obtain m where e: "e = TwitterHTTPError m"
        using Cons.prems(2) by (cases e) auto
      from Cons.IH [OF Cons.prems, of "print (''error: '' @ m) (issue (FriendshipsCreate u) w)"]
      show ?thesis using True Inl e Cons.prems(1) by auto
    qed
  qed
qed

lemma take_lower: "take n (lower s) = lower (take n s)"
  by (simp add: lower_def take_map)

lemma contains_lower: "contains m p \<Longrightarrow> lower p = p \<Longrightarrow> contains (lower m) p"
proof (induction m)
  case Nil
  then show ?case by (simp add: lower_def)
next
  case (Cons c cs)
  show ?case
  proof (cases "take (length p) (c # cs) = p")
    case True
    then have "take (length p) (lower (c # cs)) = p"
      using Cons.prems(2) by (simp only: take_lower)
    then show ?thesis by (simp add: lower_def)
  next
    case False
    then have "contains (lower cs) p" using Cons by simp
    then show ?thesis by (simp add: lower_def)
  qed
qed

lemma lower_blocked: "lower ''blocked'' = ''blocked''"
  by code_simp

lemma read_no_snapshots:
  "read_ids no_snapshots ''following.txt'' = Inr []"
  "read_ids no_snapshots ''already.txt'' = Inr []"
  by code_simp+

lemma shouted:
  "\<not> contains ''You have been BLOCKED'' ''blocked''"
  "contains (lower ''You have been BLOCKED'') ''blocked''"
  by code_simp+

section \<open>Following back\<close>

text \<open>
  Claim C4. For the followers \<open>W\<close> and the following \<open>F\<close> that the loaders return,
  \<open>auto_follow_followers\<close> of a connected bot returns normally and the calls it issues
  are exactly one \<open>friendships.create\<close> for each identifier of \<open>W - F\<close>; none of them is
  for an identifier of \<open>F\<close>. With \<open>W = {1, 2, 3}\<close> and \<open>F = {2, 3, 4}\<close> the only call is
  for 1.
\<close>

theorem follow_back_targets:
  assumes "set_order_ok (order rt)" and "connected st"
    and "fst (get_followers_list rt st w) = Inr (Some W)"
    and "fst (get_follows_list rt st w) = Inr (Some F)"
  shows "\<exists>us w'. auto_follow_followers R rt st w = (Inr (), w')
           \<and> history w' = history w @ map FriendshipsCreate us
           \<and> distinct us \<and> set us = set W - set F
           \<and> (\<forall>u \<in> set F. FriendshipsCreate u \<notin> set (map FriendshipsCreate us))"
proof -
  from load_snapshot_Some [of rt st "''FOLLOWERS_FILE''" w W] assms(3)
  have W: "BOT_CONFIG st \<noteq> Map.empty" "get_followers_list rt st w = (Inr (Some W), w)"
    by (simp_all add: get_followers_list_def)
  from load_snapshot_Some [of rt st "''FOLLOWS_FILE''" w F] assms(4)
  have F: "get_follows_list rt st w = (Inr (Some F), w)"
    by (simp_all add: get_follows_list_def)
  let ?us = "py_difference (order rt) W F"
  from auto_follow_followers_loop_calls [OF assms(2), of R ?us w] obtain w' where
    w': "auto_follow_followers_loop R st ?us w = (Inr (), w')"
    "history w' = history w @ map FriendshipsCreate ?us"
    by blast
  have "auto_follow_followers R rt st w = (Inr (), w')"
    using W F w'(1) by (simp add: auto_follow_followers_def)
  moreover have "distinct ?us \<and> set ?us = set W - set F"
    using py_difference_ok [OF assms(1)] by blast
  ultimately show ?thesis
    using w'(2) by (intro exI [of _ ?us] exI [of _ w']) auto
qed

theorem follow_back_targets_witness:
  "set_order_ok (order example_runtime) \<and> connected example_bot
   \<and> fst (get_followers_list example_runtime example_bot followers_123_following_234)
       = Inr (Some [1, 2, 3])
   \<and> fst (get_follows_list example_runtime example_bot followers_123_following_234)
       = Inr (Some [2, 3, 4])
   \<and> (\<exists>w'. auto_follow_followers quiet_remote example_runtime example_bot
               followers_123_following_234 = (Inr (), w')
           \<and> history w' = [FriendshipsCreate 1])"
proof -
  from follow_back_targets [OF example_runtime_simps(1) example_bot_simps(1) load_claim_files,
      of quiet_remote]
  obtain us w' where
    r: "auto_follow_followers quiet_remote example_runtime example_bot
          followers_123_following_234 = (Inr (), w')"
    "history w' = history followers_123_following_234 @ map FriendshipsCreate us"
    "distinct us" "set us = set [1, 2, 3] - set [2, 3, 4]"
    by (elim exE conjE) (rule that, assumption+)
  have "set [1, 2, 3] - set [2, 3, 4] = {1::int}" by auto
  then have "set us = {1}" using r(4) by simp
  then have "us = [1]" using r(3) by (simp add: distinct_singleton)
  then have "\<exists>w'. auto_follow_followers quiet_remote example_runtime example_bot
               followers_123_following_234 = (Inr (), w')
           \<and> history w' = [FriendshipsCreate 1]"
    using r(1,2) by simp
  with example_runtime_simps(1) example_bot_simps(1) load_claim_files
  show ?thesis by (intro conjI)
qed

section \<open>Unfollowing the accounts that do not follow back\<close>



section \<open>Remote errors in the bulk operations\<close>

text \<open>
  Claim C2, as stated, fails for \<open>auto_unfollow_nonfollowers\<close> (and in the same way for
  \<open>auto_mute_following\<close> and \<open>auto_unmute\<close>): of the two accounts to unfollow only the first
  is attempted, and its error reaches the caller.
\<close>

theorem unfollow_stops_at_first_error:
  "fst (get_follows_list example_runtime example_bot following_12) = Inr (Some [1, 2])
   \<and> fst (get_followers_list example_runtime example_bot following_12) = Inr (Some [])
   \<and> (case auto_unfollow_nonfollowers [] refusing_remote example_runtime example_bot following_12 of
         (r, w') \<Rightarrow> r = Inl (Remote (TwitterHTTPError ''Rate limit exceeded''))
                    \<and> history w' = [FriendshipsDestroy 1])"
proof -
  have r: "read_ids following_12 ''following.txt'' = Inr [1, 2]"
    "read_ids following_12 ''followers.txt'' = Inr []"
    "read_ids following_12 ''already.txt'' = Inr []"
    by code_simp+
  have l: "get_follows_list example_runtime example_bot following_12 = (Inr (Some [1, 2]), following_12)"
    "get_followers_list example_runtime example_bot following_12 = (Inr (Some []), following_12)"
    by (simp_all add: get_followers_list_def get_follows_list_def
        load_snapshot_ready [OF _ r(1)] load_snapshot_ready [OF _ r(2)] py_set_def insertion_order_def)
  have h: "history following_12 = []" by (simp add: following_12_def)
  show ?thesis
    by (simp add: auto_unfollow_nonfollowers_def l r config_def py_difference_def py_set_def
        py_update_def insertion_order_def refusing_remote_def quiet_remote_def h)
qed

section \<open>Remote errors while following the authors of tweets\<close>

text \<open>
  Claim C1, as stated, fails on the letter case: the test of the source is on the
  lower-cased message. An error whose message has \<open>BLOCKED\<close> in capitals does not contain
  the string \<open>blocked\<close>, and the run goes on to the next tweet.
\<close>

theorem shouted_blocked_continues:
  "\<not> contains ''You have been BLOCKED'' ''blocked''
   \<and> fst (auto_follow shouting_remote example_runtime example_bot ''#topic'' 100 ''recent''
            no_snapshots) = Inr ()
   \<and> history (snd (auto_follow shouting_remote example_runtime example_bot ''#topic'' 100
                     ''recent'' no_snapshots))
       = [SearchTweets ''#topic'' ''recent'' 100, FriendshipsCreate 1, FriendshipsCreate 2]"
proof -
  have h: "history no_snapshots = []" by (simp add: no_snapshots_def)
  have r: "read_ids (issue (SearchTweets ''#topic'' ''recent'' 100) no_snapshots) ''following.txt''
             = Inr []"
    "read_ids (issue (SearchTweets ''#topic'' ''recent'' 100) no_snapshots) ''already.txt''
             = Inr []"
    using read_no_snapshots by (simp_all add: read_ids_def)
  show ?thesis
    by (simp add: shouted auto_follow_def search_tweets_def get_follows_list_def
        get_do_not_follow_list_def load_snapshot_ready [OF _ r(1)] load_snapshot_ready [OF _ r(2)]
        shouting_remote_def quiet_remote_def alice_tweet_def bob_tweet_def config_def h
        py_set_def py_update_def insertion_order_def)
qed

section \<open>Processes and the configuration\<close>

lemma read_config_keeps:
  "cfg k \<noteq> None \<Longrightarrow> snd (read_config lines cfg) k \<noteq> None"
  by (induction lines arbitrary: cfg) (auto split: list.splits)

lemma read_config_nonempty:
  "cfg \<noteq> Map.empty \<Longrightarrow> snd (read_config lines cfg) \<noteq> Map.empty"
proof -
  assume "cfg \<noteq> Map.empty"
  then obtain k where "cfg k \<noteq> None" by (auto simp: fun_eq_iff)
  then have "snd (read_config lines cfg) k \<noteq> None" by (rule read_config_keeps)
  then show ?thesis by auto
qed

lemma not_missing_nonempty:
  "filter (missing cfg) required_parameters = [] \<Longrightarrow> cfg \<noteq> Map.empty"
  by (auto simp: required_parameters_def missing_def)

lemma bot_setup_config:
  assumes "BOT_CONFIG st \<noteq> Map.empty"
  shows "BOT_CONFIG (fst (snd (bot_setup rt f st w))) = Map.empty \<longleftrightarrow>
           (\<exists>content cfg. files w f = Some content
              \<and> read_config (file_lines content) (BOT_CONFIG st) = (Inr (), cfg)
              \<and> (\<exists>k \<in> set required_parameters. missing cfg k))"
proof (cases "files w f")
  case None
  then show ?thesis using assms by (simp add: bot_setup_def)
next
  case (Some content)
  obtain r cfg where rc: "read_config (file_lines content) (BOT_CONFIG st) = (r, cfg)"
    by (cases "read_config (file_lines content) (BOT_CONFIG st)") auto
  have ne: "cfg \<noteq> Map.empty"
    using read_config_nonempty [OF assms, of "file_lines content"] rc by simp
  show ?thesis
  proof (cases r)
    case (Inl e)
    then show ?thesis using Some rc ne by (simp add: bot_setup_def)
  next
    case (Inr u)
    show ?thesis
    proof (cases "filter (missing cfg) required_parameters = []")
      case True
      then have "\<not> (\<exists>k \<in> set required_parameters. missing cfg k)"
        by (simp add: filter_empty_conv)
      moreover have "BOT_CONFIG (fst (snd (bot_setup rt f st w))) = cfg"
        using Some rc Inr True
        by (simp add: bot_setup_def split: sum.splits list.splits)
      ultimately show ?thesis using Some rc Inr ne by simp
    next
      case False
      then have "\<exists>k \<in> set required_parameters. missing cfg k"
        by (simp add: filter_empty_conv)
      moreover have "BOT_CONFIG (fst (snd (bot_setup rt f st w))) = Map.empty"
        using Some rc Inr False by (simp add: bot_setup_def)
      ultimately show ?thesis using Some rc Inr by simp
    qed
  qed
qed

lemma read_blank_token:
  "read_config (file_lines blank_token_text) cfg = (Inr (), cfg(''OAUTH_TOKEN'' \<mapsto> []))"
  by (simp add: blank_token_text_def newline_def strip_def whitespace_def)

lemma read_new_handle:
  "read_config (file_lines new_handle_text) cfg = (Inr (), cfg(''TWITTER_HANDLE'' \<mapsto> ''other''))"
  by (simp add: new_handle_text_def newline_def strip_def whitespace_def)

lemma example_bot_validated:
  "filter (missing (BOT_CONFIG example_bot)) required_parameters = []"
  by (simp add: missing_def required_parameters_def example_bot_def example_config_def)

lemma config_files:
  "files blank_token_file ''config.txt'' = Some blank_token_text"
  "files new_handle_file ''config.txt'' = Some new_handle_text"
  by (simp_all add: blank_token_file_def new_handle_file_def)

lemma blank_token_missing:
  "filter (missing ((BOT_CONFIG example_bot)(''OAUTH_TOKEN'' \<mapsto> []))) required_parameters
     = [''OAUTH_TOKEN'']"
  by (simp add: missing_def required_parameters_def example_bot_def example_config_def)

lemma new_handle_validated:
  "filter (missing ((BOT_CONFIG example_bot)(''TWITTER_HANDLE'' \<mapsto> ''other'')))
     required_parameters = []"
  by (simp add: missing_def required_parameters_def example_bot_def example_config_def)

section \<open>Leaving the ready state\<close>

text \<open>
  Claim C9, as stated, fails for \<open>bot_setup\<close>: run again on a bot whose required
  parameters are all set, with a file that gives one of them an empty value, it returns
  normally and leaves \<open>BOT_CONFIG\<close> empty.
\<close>

theorem setup_resets_ready_bot:
  "connected example_bot
   \<and> filter (missing (BOT_CONFIG example_bot)) required_parameters = []
   \<and> BOT_CONFIG example_bot \<noteq> Map.empty
   \<and> blank_token_text = ''OAUTH_TOKEN:'' @ [newline]
   \<and> files blank_token_file ''config.txt'' = Some blank_token_text
   \<and> fst (bot_setup example_runtime ''config.txt'' example_bot blank_token_file) = Inr ()
   \<and> BOT_CONFIG (fst (snd (bot_setup example_runtime ''config.txt'' example_bot blank_token_file)))
       = Map.empty"
proof -
  have "fst (bot_setup example_runtime ''config.txt'' example_bot blank_token_file) = Inr ()"
    "BOT_CONFIG (fst (snd (bot_setup example_runtime ''config.txt'' example_bot blank_token_file)))
       = Map.empty"
    unfolding bot_setup_def config_files
    by (simp_all add: read_blank_token blank_token_missing)
  with example_bot_simps(1) example_bot_validated example_bot_simps(6) blank_token_text_def
    config_files(1)
  show ?thesis by (intro conjI)
qed

end
